theory Spec2Isabelle
  imports Complex_Main
begin

section \<open>Python and array primitives used by the example scripts\<close>

text \<open>
  The two scripts under \<^verbatim>\<open>Examples/1stSteps\<close> are straight-line Python over numpy arrays
  and scipy sparse matrices. Exceptions are values: every function that can raise
  returns \<open>py_error + 'a\<close>.
\<close>

datatype py_error = ValueError | IndexError | TypeError

text \<open>
  \<^verbatim>\<open>range(start, stop, step)\<close>: a zero step raises \<^verbatim>\<open>ValueError\<close>; otherwise the
  number of elements is the one CPython computes
  (\<^verbatim>\<open>(hi - lo - 1) / step + 1\<close> when \<^verbatim>\<open>lo < hi\<close>, else 0).
\<close>

definition range_length :: "int \<Rightarrow> int \<Rightarrow> int \<Rightarrow> nat" where
  "range_length lo hi step = (if lo < hi then nat ((hi - lo - 1) div step + 1) else 0)"

definition py_range :: "int \<Rightarrow> int \<Rightarrow> int \<Rightarrow> py_error + int list" where
  "py_range start stop step =
     (if step = 0 then Inl ValueError
      else if 0 < step
        then Inr (map (\<lambda>k. start + int k * step) [0..<range_length start stop step])
        else Inr (map (\<lambda>k. start + int k * step) [0..<range_length stop start (- step)]))"

text \<open>
  \<^verbatim>\<open>xs[i:j]\<close>: a negative bound counts from the end, and both bounds are clamped to
  \<^verbatim>\<open>[0, len(xs)]\<close>; the slice is empty when the adjusted start is not below the
  adjusted stop. Slicing never raises.
\<close>

definition adjust_index :: "nat \<Rightarrow> int \<Rightarrow> nat" where
  "adjust_index len i =
     (if i < 0 then (if int len + i < 0 then 0 else nat (int len + i))
      else if int len \<le> i then len else nat i)"

definition py_slice :: "'a list \<Rightarrow> int \<Rightarrow> int \<Rightarrow> 'a list" where
  "py_slice xs i j =
     (let a = adjust_index (length xs) i; b = adjust_index (length xs) j
      in take (b - a) (drop a xs))"

text \<open>
  A scipy \<^verbatim>\<open>csr_matrix\<close>: the number of columns and, for every row, the stored
  (column, value) pairs. The number of rows (\<^verbatim>\<open>shape[0]\<close>) is the number of stored
  rows. An element is the sum of the values stored for its column (scipy sums duplicate
  entries), so a column with no stored pair reads 0.
\<close>

record csr =
  ncols :: nat
  rows :: "(nat \<times> real) list list"

definition nrows :: "csr \<Rightarrow> nat" where
  "nrows M = length (rows M)"

definition csr_row_dense :: "csr \<Rightarrow> nat \<Rightarrow> real list" where
  "csr_row_dense M i =
     map (\<lambda>j. sum_list (map snd (filter (\<lambda>p. fst p = j) (rows M ! i)))) [0..<ncols M]"

definition csr_todense :: "csr \<Rightarrow> real list list" where
  "csr_todense M = map (csr_row_dense M) [0..<nrows M]"

text \<open>\<^verbatim>\<open>Y[i:j]\<close> on a sparse matrix slices its rows like a list and keeps the columns.\<close>

definition csr_getrows :: "csr \<Rightarrow> int \<Rightarrow> int \<Rightarrow> csr" where
  "csr_getrows M i j = \<lparr>ncols = ncols M, rows = py_slice (rows M) i j\<rparr>"

text \<open>
  \<^verbatim>\<open>csr_matrix((data, (row_ind, col_ind)), shape=(M, N))\<close>: the three arrays must have
  one length, and every index must lie inside the shape; otherwise scipy raises
  \<^verbatim>\<open>ValueError\<close>. Row \<open>r\<close> stores the pairs whose row index is \<open>r\<close>, in input order.
\<close>

definition csr_matrix :: "real list \<Rightarrow> int list \<Rightarrow> int list \<Rightarrow> nat \<times> nat \<Rightarrow> py_error + csr" where
  "csr_matrix vals row_ind col_ind shape =
     (if length row_ind \<noteq> length vals \<or> length col_ind \<noteq> length vals then Inl ValueError
      else if list_ex (\<lambda>r. r < 0 \<or> int (fst shape) \<le> r) row_ind then Inl ValueError
      else if list_ex (\<lambda>c. c < 0 \<or> int (snd shape) \<le> c) col_ind then Inl ValueError
      else Inr \<lparr>ncols = snd shape,
                rows = map (\<lambda>r. map (\<lambda>t. (nat (fst (snd t)), snd (snd t)))
                                 (filter (\<lambda>t. fst t = int r) (zip row_ind (zip col_ind vals))))
                           [0..<fst shape]\<rparr>)"

section \<open>The minibatch loops of LogisticRegression\_GraphAPI.py\<close>

text \<open>
  \<^verbatim>\<open>
  for i in range(0,len(X_train),minibatch_size):
      x = X_train[i:i+minibatch_size]
      y = Y_train[i:i+minibatch_size]
      trainer.train_minibatch({data: x, label_one_hot: y})
  \<close>
  The trainer is the framework's; the loop is modelled for any step function
  \<open>train_minibatch\<close> that maps a minibatch and the trainer's state (the parameters it
  updates) to the next state. The body of the \<^verbatim>\<open>for\<close> runs once per element of the
  range, in order.
\<close>

fun train_steps :: "('x list \<Rightarrow> csr \<Rightarrow> 's \<Rightarrow> 's) \<Rightarrow> 'x list \<Rightarrow> csr \<Rightarrow> int \<Rightarrow> int list \<Rightarrow> 's \<Rightarrow> 's" where
  "train_steps train_minibatch X Y m [] s = s"
| "train_steps train_minibatch X Y m (i # is) s =
     train_steps train_minibatch X Y m is
       (train_minibatch (py_slice X i (i + m)) (csr_getrows Y i (i + m)) s)"

definition train_loop :: "('x list \<Rightarrow> csr \<Rightarrow> 's \<Rightarrow> 's) \<Rightarrow> 'x list \<Rightarrow> csr \<Rightarrow> int \<Rightarrow> 's \<Rightarrow> py_error + 's" where
  "train_loop train_minibatch X_train Y_train minibatch_size s =
     (case py_range 0 (int (length X_train)) minibatch_size of
        Inl e \<Rightarrow> Inl e
      | Inr is \<Rightarrow> Inr (train_steps train_minibatch X_train Y_train minibatch_size is s))"

text \<open>
  The minibatches a loop passes on, in order: the loop run with a step function that
  appends its arguments to a list.
\<close>

definition presented :: "'x list \<Rightarrow> csr \<Rightarrow> int \<Rightarrow> py_error + ('x list \<times> csr) list" where
  "presented X Y m = train_loop (\<lambda>x y seen. seen @ [(x, y)]) X Y m []"

text \<open>
  The test loop has the same shape over \<^verbatim>\<open>X_test\<close>, \<^verbatim>\<open>Y_test\<close>, with
  \<^verbatim>\<open>evaluator.test_minibatch\<close> in the body.
\<close>

fun test_steps :: "('x list \<Rightarrow> csr \<Rightarrow> 's \<Rightarrow> 's) \<Rightarrow> 'x list \<Rightarrow> csr \<Rightarrow> int \<Rightarrow> int list \<Rightarrow> 's \<Rightarrow> 's" where
  "test_steps test_minibatch X Y m [] s = s"
| "test_steps test_minibatch X Y m (i # is) s =
     test_steps test_minibatch X Y m is
       (test_minibatch (py_slice X i (i + m)) (csr_getrows Y i (i + m)) s)"

definition test_loop :: "('x list \<Rightarrow> csr \<Rightarrow> 's \<Rightarrow> 's) \<Rightarrow> 'x list \<Rightarrow> csr \<Rightarrow> int \<Rightarrow> 's \<Rightarrow> py_error + 's" where
  "test_loop test_minibatch X_test Y_test minibatch_size s =
     (case py_range 0 (int (length X_test)) minibatch_size of
        Inl e \<Rightarrow> Inl e
      | Inr is \<Rightarrow> Inr (test_steps test_minibatch X_test Y_test minibatch_size is s))"

definition tested :: "'x list \<Rightarrow> csr \<Rightarrow> int \<Rightarrow> py_error + ('x list \<times> csr) list" where
  "tested X Y m = test_loop (\<lambda>x y seen. seen @ [(x, y)]) X Y m []"


section \<open>The numpy services the scripts call\<close>

text \<open>
  numpy is a third-party library; the scripts are modelled for any implementation of
  the services they use. The global generator \<^verbatim>\<open>np.random\<close> is a state \<open>'g\<close>:
  \<^verbatim>\<open>np.random.seed(s)\<close> replaces the state by one that depends on \<open>s\<close> only, and
  every draw returns a value and the next state. Floating-point numbers are kept
  abstract (\<open>'f\<close> for float64, \<open>'h\<close> for float32): the scripts only apply the
  library's arithmetic to them.
\<close>

record ('g, 'f, 'h) numpy =
  np_seed :: "int \<Rightarrow> 'g"
  np_draw_int :: "'g \<Rightarrow> int \<Rightarrow> int \<Rightarrow> int \<times> 'g"
  np_draw_normal :: "'g \<Rightarrow> 'f \<times> 'g"
  np_permutation :: "'g \<Rightarrow> nat \<Rightarrow> nat list \<times> 'g"
  f_of_int :: "int \<Rightarrow> 'f"
  f_add :: "'f \<Rightarrow> 'f \<Rightarrow> 'f"
  f_mul :: "'f \<Rightarrow> 'f \<Rightarrow> 'f"
  f_div :: "'f \<Rightarrow> 'f \<Rightarrow> 'f"
  astype_float32 :: "'f \<Rightarrow> 'h"

text \<open>\<^verbatim>\<open>np.random.seed(s)\<close> as a statement on the global state: the old state is lost.\<close>

definition np_random_seed :: "('g, 'f, 'h) numpy \<Rightarrow> int \<Rightarrow> 'g \<Rightarrow> 'g" where
  "np_random_seed np s g = np_seed np s"

text \<open>An array of \<open>n\<close> values is filled by \<open>n\<close> successive draws.\<close>

fun draws :: "('g \<Rightarrow> 'a \<times> 'g) \<Rightarrow> nat \<Rightarrow> 'g \<Rightarrow> 'a list \<times> 'g" where
  "draws d 0 g = ([], g)"
| "draws d (Suc n) g =
     (case d g of (x, g1) \<Rightarrow> (case draws d n g1 of (xs, g2) \<Rightarrow> (x # xs, g2)))"

text \<open>\<^verbatim>\<open>np.random.randint(size=N, low=lo, high=hi)\<close> and \<^verbatim>\<open>np.random.randn(N, D)\<close>.\<close>

definition randint :: "('g, 'f, 'h) numpy \<Rightarrow> nat \<Rightarrow> int \<Rightarrow> int \<Rightarrow> 'g \<Rightarrow> int list \<times> 'g" where
  "randint np N lo hi g = draws (\<lambda>g. np_draw_int np g lo hi) N g"

definition randn :: "('g, 'f, 'h) numpy \<Rightarrow> nat \<Rightarrow> nat \<Rightarrow> 'g \<Rightarrow> 'f list list \<times> 'g" where
  "randn np N D g = draws (draws (np_draw_normal np) D) N g"

section \<open>LogisticRegression\_GraphAPI.py: the synthetic data\<close>

definition input_dim :: nat where
  "input_dim = 2"

definition num_classes :: nat where
  "num_classes = 2"

text \<open>
  \<^verbatim>\<open>
  def generate_synthetic_data(N):
      Y = np.random.randint(size=N, low=0, high=num_classes)  # labels
      X = (np.random.randn(N, input_dim)+3) * (Y[:,None]+1)   # data
      Y = scipy.sparse.csr_matrix((np.ones(N,np.float32), (range(N), Y)), shape=(N, num_classes))
      X = X.astype(np.float32)
      return X, Y
  \<close>
  A negative \<^verbatim>\<open>N\<close> is refused by numpy (\<^verbatim>\<open>ValueError\<close>). Both random arrays have
  \<^verbatim>\<open>N\<close> rows, so the product broadcasts row \<open>i\<close> of the features against label
  \<open>i\<close>. The function reads and advances the global generator.
\<close>

definition generate_synthetic_data ::
  "('g, 'f, 'h) numpy \<Rightarrow> int \<Rightarrow> 'g \<Rightarrow> py_error + (('h list list \<times> csr) \<times> 'g)" where
  "generate_synthetic_data np N g =
     (if N < 0 then Inl ValueError
      else case randint np (nat N) 0 (int num_classes) g of (Y, g1) \<Rightarrow>
           case randn np (nat N) input_dim g1 of (R, g2) \<Rightarrow>
           let X = map2 (\<lambda>r y. map (\<lambda>v. f_mul np (f_add np v (f_of_int np 3)) (f_of_int np (y + 1))) r) R Y
           in case csr_matrix (replicate (nat N) 1) (map int [0..<nat N]) Y (nat N, num_classes) of
                Inl e \<Rightarrow> Inl e
              | Inr Y' \<Rightarrow> Inr ((map (map (astype_float32 np)) X, Y'), g2))"

text \<open>
  The data statements of the script, in program order, from whatever state \<open>g0\<close> the
  generator has when the module is loaded:
  \<^verbatim>\<open>
  np.random.seed(0)
  X_train, Y_train = generate_synthetic_data(20000)
  X_test,  Y_test  = generate_synthetic_data(1000)
  ...
  X_check, Y_check = generate_synthetic_data(25)
  \<close>
  The statements in between build and run the framework's trainer and evaluator; they
  make no call into \<^verbatim>\<open>np.random\<close>, so the generator state passes from the second
  call to the third unchanged.
\<close>

definition synthetic_arrays ::
  "('g, 'f, 'h) numpy \<Rightarrow> 'g
     \<Rightarrow> py_error + (('h list list \<times> csr) \<times> ('h list list \<times> csr) \<times> ('h list list \<times> csr))" where
  "synthetic_arrays np g0 =
     (let g1 = np_random_seed np 0 g0 in
      case generate_synthetic_data np 20000 g1 of Inl e \<Rightarrow> Inl e | Inr (train, g2) \<Rightarrow>
      case generate_synthetic_data np 1000 g2 of Inl e \<Rightarrow> Inl e | Inr (test, g3) \<Rightarrow>
      case generate_synthetic_data np 25 g3 of Inl e \<Rightarrow> Inl e | Inr (check, g4) \<Rightarrow>
        Inr (train, test, check))"

text \<open>A one-hot vector: exactly one entry is 1 and every entry is 0 or 1.\<close>

definition one_hot :: "real list \<Rightarrow> bool" where
  "one_hot v \<longleftrightarrow> length (filter (\<lambda>x. x = 1) v) = 1 \<and> list_all (\<lambda>x. x = 0 \<or> x = 1) v"

section \<open>MNIST\_Complex\_Training.py: loading the corpus\<close>

text \<open>
  The corpus as \<^verbatim>\<open>datasets.fetch_mldata("MNIST original")\<close> returns it: \<^verbatim>\<open>data\<close>, one
  row of pixel bytes per sample, and \<^verbatim>\<open>target\<close>, one floating-point label per sample.
  A failed fetch ends the script before \<^verbatim>\<open>fetch_mnist\<close> computes anything.
\<close>

record mldata =
  data :: "nat list list"
  target :: "real list"

text \<open>
  \<^verbatim>\<open>A.reshape((-1,28,28))\<close>: the elements in row-major order, cut into blocks of
  \<open>28 * 28\<close>, each cut into 28 rows; numpy raises \<^verbatim>\<open>ValueError\<close> when the number of
  elements is not a multiple of \<open>28 * 28\<close>.
\<close>

definition chunks :: "nat \<Rightarrow> 'a list \<Rightarrow> 'a list list" where
  "chunks n xs = map (\<lambda>j. take n (drop (j * n) xs)) [0..<length xs div n]"

definition reshape_28_28 :: "'a list list \<Rightarrow> py_error + 'a list list list" where
  "reshape_28_28 A =
     (if length (concat A) mod (28 * 28) \<noteq> 0 then Inl ValueError
      else Inr (map (chunks 28) (chunks (28 * 28) (concat A))))"

text \<open>\<^verbatim>\<open>Y.astype(int)\<close> on floating-point labels truncates toward zero.\<close>

definition astype_int :: "real \<Rightarrow> int" where
  "astype_int r = (if 0 \<le> r then \<lfloor>r\<rfloor> else \<lceil>r\<rceil>)"

text \<open>
  \<^verbatim>\<open>utils.shuffle(A, B)\<close>: the arrays must have one length (\<^verbatim>\<open>ValueError\<close>
  otherwise); one index array is drawn from the global generator and both arrays are
  indexed by it (an index outside the array raises \<^verbatim>\<open>IndexError\<close>).
\<close>

definition shuffle :: "('g, 'f, 'h) numpy \<Rightarrow> 'a list \<Rightarrow> 'b list \<Rightarrow> 'g \<Rightarrow> py_error + (('a list \<times> 'b list) \<times> 'g)" where
  "shuffle np A B g =
     (if length A \<noteq> length B then Inl ValueError
      else case np_permutation np g (length A) of (idx, g1) \<Rightarrow>
        if list_ex (\<lambda>i. length A \<le> i) idx then Inl IndexError
        else Inr ((map (\<lambda>i. A ! i) idx, map (\<lambda>i. B ! i) idx), g1))"

definition num_classes_mnist :: nat where
  "num_classes_mnist = 10"

text \<open>
  \<^verbatim>\<open>
  def fetch_mnist():
      mnist = datasets.fetch_mldata("MNIST original")
      X, Y = mnist.data / 255., mnist.target
      X_train, X_test = X[:60000].reshape((-1,28,28)), X[60000:].reshape((-1,28,28))
      Y_train, Y_test = Y[:60000].astype(int), Y[60000:].astype(int)
      np.random.seed(0)
      X_train, Y_train = utils.shuffle(X_train, Y_train)
      Y_train, Y_test = (scipy.sparse.csr_matrix((np.ones(len(Y),np.float32), (range(len(Y)), Y)),
                           shape=(len(Y), 10)) for Y in (Y_train, Y_test))
      X_train, X_test = (X.astype(np.float32) for X in (X_train, X_test))
      return X_train, Y_train, X_test, Y_test
  \<close>
\<close>

definition one_hot_labels :: "int list \<Rightarrow> py_error + csr" where
  "one_hot_labels Y =
     csr_matrix (replicate (length Y) 1) (map int [0..<length Y]) Y (length Y, 10)"

definition fetch_mnist ::
  "('g, 'f, 'h) numpy \<Rightarrow> mldata \<Rightarrow> 'g
     \<Rightarrow> py_error + ('h list list list \<times> csr \<times> 'h list list list \<times> csr)" where
  "fetch_mnist np mnist g =
     (let X = map (map (\<lambda>p. f_div np (f_of_int np (int p)) (f_of_int np 255))) (data mnist);
          Y = target mnist
      in case reshape_28_28 (py_slice X 0 60000) of Inl e \<Rightarrow> Inl e | Inr X_train \<Rightarrow>
         case reshape_28_28 (py_slice X 60000 (int (length X))) of Inl e \<Rightarrow> Inl e | Inr X_test \<Rightarrow>
         let Y_train = map astype_int (py_slice Y 0 60000);
             Y_test = map astype_int (py_slice Y 60000 (int (length Y)));
             g1 = np_random_seed np 0 g
         in case shuffle np X_train Y_train g1 of Inl e \<Rightarrow> Inl e | Inr ((X_train', Y_train'), g2) \<Rightarrow>
            case one_hot_labels Y_train' of Inl e \<Rightarrow> Inl e | Inr Y_train'' \<Rightarrow>
            case one_hot_labels Y_test of Inl e \<Rightarrow> Inl e | Inr Y_test' \<Rightarrow>
              Inr (map (map (map (astype_float32 np))) X_train', Y_train'',
                   map (map (map (astype_float32 np))) X_test, Y_test'))"

text \<open>
  What \<open>fetch_mnist\<close> makes of one corpus row, read off its body: every pixel divided
  by 255, the row cut into 28 rows of 28, every entry cast to float32. And the row of
  the label matrix for the class \<open>c\<close>.
\<close>

definition sample_image :: "('g, 'f, 'h) numpy \<Rightarrow> nat list \<Rightarrow> 'h list list" where
  "sample_image np row =
     map (map (astype_float32 np))
       (chunks 28 (map (\<lambda>p. f_div np (f_of_int np (int p)) (f_of_int np 255)) row))"

definition one_hot_row :: "nat \<Rightarrow> int \<Rightarrow> real list" where
  "one_hot_row n c = (replicate n 0)[nat c := 1]"

section \<open>The framework operations the scripts compose\<close>

text \<open>
  The scripts build their models from operations of the CNTK framework, whose
  implementation is not among the example files. The definitions of this section are
  modelled from the specification and from the scripts' own comments, over the real
  numbers; floating-point rounding is not modelled. A tensor is the list of its entries
  and a batch is a list of samples.
\<close>

text \<open>
  Modelled from the spec: applying a model function to a batch (\<^emph>\<open>a pure function
  mapping a feature tensor to a score vector per class\<close>). The framework's batch
  evaluation is missing; a failure on any sample fails the batch.
\<close>

fun batch :: "('a \<Rightarrow> py_error + 'b) \<Rightarrow> 'a list \<Rightarrow> py_error + 'b list" where
  "batch f [] = Inr []"
| "batch f (x # xs) =
     (case f x of Inl e \<Rightarrow> Inl e
      | Inr y \<Rightarrow> (case batch f xs of Inl e \<Rightarrow> Inl e | Inr ys \<Rightarrow> Inr (y # ys)))"

text \<open>
  Modelled from the spec: \<^verbatim>\<open>cntk.times(x, W) + b\<close> and the \<^verbatim>\<open>Dense\<close> layer without
  activation (\<^emph>\<open>linear transform\<close>; the script's comment gives the formula
  \<^verbatim>\<open>y = x @ W + b\<close>). The framework's matrix product is missing. \<open>n\<close> is the number of
  outputs the parameters were declared with.
\<close>

definition linear :: "nat \<Rightarrow> real list list \<Rightarrow> real list \<Rightarrow> real list \<Rightarrow> real list" where
  "linear n Wt bt x =
     map (\<lambda>j. sum_list (map (\<lambda>i. x ! i * Wt ! i ! j) [0..<length x]) + bt ! j) [0..<n]"

text \<open>
  Modelled from the spec: \<^verbatim>\<open>cntk.softmax\<close> (\<^emph>\<open>normalization turning raw scores into a
  probability distribution summing to 1\<close>). The framework's implementation is missing.
\<close>

definition softmax :: "real list \<Rightarrow> real list" where
  "softmax z = map (\<lambda>x. exp x / sum_list (map exp z)) z"

text \<open>
  \<^verbatim>\<open>v.argmax()\<close> of numpy: the index of the first greatest entry (0 is returned here for
  the empty vector, on which numpy raises).
\<close>

fun argmax :: "real list \<Rightarrow> nat" where
  "argmax [] = 0"
| "argmax [x] = 0"
| "argmax (x # y # ys) = (if (y # ys) ! argmax (y # ys) \<le> x then 0 else Suc (argmax (y # ys)))"

subsection \<open>The logistic-regression model\<close>

text \<open>
  \<^verbatim>\<open>
  data = cntk.input_variable(input_dim)
  W = cntk.Parameter((input_dim, num_classes), init=cntk.glorot_uniform(), name='W')
  b = cntk.Parameter((num_classes,), init=0, name='b')
  model = cntk.times(data, W) + b
  \<close>
  The parameters are the framework's mutable state. A sample that does not have
  \<open>input_dim\<close> entries is refused.
\<close>

record parameters =
  param_W :: "real list list"
  param_b :: "real list"

definition model :: "parameters \<Rightarrow> real list list \<Rightarrow> py_error + real list list" where
  "model p X =
     batch (\<lambda>x. if length x \<noteq> input_dim then Inl ValueError
                 else Inr (linear num_classes (param_W p) (param_b p) x)) X"

text \<open>
  \<^verbatim>\<open>get_probability = cntk.softmax(model)\<close>, evaluated on a batch, and the printed
  predictions \<^verbatim>\<open>[result[i,:].argmax() for i in range(len(result))]\<close>.
\<close>

definition get_probability :: "parameters \<Rightarrow> real list list \<Rightarrow> py_error + real list list" where
  "get_probability p X = (case model p X of Inl e \<Rightarrow> Inl e | Inr S \<Rightarrow> Inr (map softmax S))"

definition predicted :: "real list list \<Rightarrow> nat list" where
  "predicted result = map (\<lambda>i. argmax (result ! i)) [0..<length result]"

subsection \<open>The evaluator\<close>

text \<open>
  \<^verbatim>\<open>
  evaluator = cntk.Evaluator(metric, [progress_writer])
  for i in range(0,len(X_test),minibatch_size):
      x = X_test[i:i+minibatch_size]
      y = Y_test[i:i+minibatch_size]
      evaluator.test_minibatch({data: x, label_one_hot: y})
  evaluator.summarize_test_progress()
  \<close>
\<close>

text \<open>
  Modelled from the spec: the state of the framework while the script runs (\<^emph>\<open>Model:
  owns a set of trainable numeric parameters\<close>; \<^emph>\<open>Progress record: accumulated
  metric and sample-count summaries\<close>): the model parameters, and the counts the
  evaluator keeps. The framework's objects are missing.
\<close>

record evaluator =
  test_errors :: nat
  test_samples :: nat

record cntk_state =
  trained :: parameters
  progress :: evaluator

text \<open>
  Modelled from the spec: \<^verbatim>\<open>cntk.classification_error\<close> (\<^emph>\<open>a 0/1 classification-error
  formulation for metric\<close>): the number of samples of a minibatch whose greatest score
  is not at the position of the label. The framework's implementation is missing.
\<close>

definition classification_errors :: "real list list \<Rightarrow> csr \<Rightarrow> nat" where
  "classification_errors S y =
     length (filter (\<lambda>i. argmax (S ! i) \<noteq> argmax (csr_row_dense y i)) [0..<length S])"

text \<open>
  Modelled from the spec: \<^verbatim>\<open>cntk.Evaluator\<close>, \<^verbatim>\<open>test_minibatch\<close> and
  \<^verbatim>\<open>summarize_test_progress\<close> (\<^emph>\<open>run the same forward computation as training but
  withholds parameter updates, accumulating the metric over a held-out set; produces a
  single averaged error rate\<close>). The framework's evaluator is missing. A new evaluator
  starts its counts at zero; a minibatch whose features and labels differ in number is
  refused; once a call has failed, the loop does not go on.
\<close>

definition Evaluator :: "cntk_state \<Rightarrow> cntk_state" where
  "Evaluator s = s\<lparr>progress := \<lparr>test_errors = 0, test_samples = 0\<rparr>\<rparr>"

definition test_minibatch :: "real list list \<Rightarrow> csr \<Rightarrow> py_error + cntk_state \<Rightarrow> py_error + cntk_state" where
  "test_minibatch x y st =
     (case st of Inl e \<Rightarrow> Inl e
      | Inr s \<Rightarrow>
          (case model (trained s) x of Inl e \<Rightarrow> Inl e
           | Inr S \<Rightarrow>
               if nrows y \<noteq> length S then Inl ValueError
               else Inr (s\<lparr>progress :=
                      \<lparr>test_errors = test_errors (progress s) + classification_errors S y,
                       test_samples = test_samples (progress s) + length S\<rparr>\<rparr>)))"

definition summarize_test_progress :: "cntk_state \<Rightarrow> real" where
  "summarize_test_progress s = real (test_errors (progress s)) / real (test_samples (progress s))"

text \<open>The evaluation pass of the script: the statements above, from the state \<open>s\<close>.\<close>

definition evaluate :: "cntk_state \<Rightarrow> real list list \<Rightarrow> csr \<Rightarrow> int \<Rightarrow> py_error + (real \<times> cntk_state)" where
  "evaluate s X_test Y_test minibatch_size =
     (case test_loop test_minibatch X_test Y_test minibatch_size (Inr (Evaluator s)) of
        Inl e \<Rightarrow> Inl e
      | Inr (Inl e) \<Rightarrow> Inl e
      | Inr (Inr s') \<Rightarrow> Inr (summarize_test_progress s', s'))"

subsection \<open>The MNIST network\<close>

text \<open>
  Modelled from the spec: \<^verbatim>\<open>Sequential\<close> (\<^emph>\<open>assemble a fixed computation graph from
  primitive layers into one callable mapping inputs to class scores\<close>): the layers are
  applied in order, and a shape mismatch in any layer is a failure. The framework's
  implementation is missing.
\<close>

fun Sequential :: "(real list \<Rightarrow> py_error + real list) list \<Rightarrow> real list \<Rightarrow> py_error + real list" where
  "Sequential [] x = Inr x"
| "Sequential (l # ls) x = (case l x of Inl e \<Rightarrow> Inl e | Inr y \<Rightarrow> Sequential ls y)"

text \<open>
  Modelled from the spec: the \<^verbatim>\<open>Dense\<close> layer (\<^verbatim>\<open>y = activation(x @ W + b)\<close>), with its
  number of outputs, its parameters and its activation.
\<close>

definition Dense :: "nat \<Rightarrow> real list list \<Rightarrow> real list \<Rightarrow> (real \<Rightarrow> real) \<Rightarrow> real list \<Rightarrow> py_error + real list" where
  "Dense n Wt bt activation x = Inr (map activation (linear n Wt bt x))"

text \<open>
  Modelled from the spec: the rectifier \<^verbatim>\<open>C.ops.relu\<close>, the default activation the
  script selects for its layers. The framework's implementation is missing.
\<close>

definition relu :: "real \<Rightarrow> real" where
  "relu v = max 0 v"

text \<open>
  \<^verbatim>\<open>
  model = C.layers.Sequential([
      C.layers.Convolution2D((5,5), num_filters=32, reduction_rank=0, pad=True),
      C.layers.MaxPooling((3,3), strides=(2,2)),
      C.layers.Convolution2D((3,3), num_filters=48),
      C.layers.MaxPooling((3,3), strides=(2,2)),
      C.layers.Convolution2D((3,3), num_filters=64),
      C.layers.Dense(96),
      C.layers.Dropout(dropout_rate=0.5),
      C.layers.Dense(num_classes, activation=None)
  ])
  \<close>
  The convolution, pooling and dropout layers are the framework's and stay parameters
  of the model, as do the weights of the two dense layers.
\<close>

record mnist_layers =
  conv1 :: "real list \<Rightarrow> py_error + real list"
  pool1 :: "real list \<Rightarrow> py_error + real list"
  conv2 :: "real list \<Rightarrow> py_error + real list"
  pool2 :: "real list \<Rightarrow> py_error + real list"
  conv3 :: "real list \<Rightarrow> py_error + real list"
  dense1_W :: "real list list"
  dense1_b :: "real list"
  dropout :: "real list \<Rightarrow> py_error + real list"
  dense2_W :: "real list list"
  dense2_b :: "real list"

definition model_mnist :: "mnist_layers \<Rightarrow> real list list \<Rightarrow> py_error + real list list" where
  "model_mnist L X =
     batch (Sequential [conv1 L, pool1 L, conv2 L, pool2 L, conv3 L,
                        Dense 96 (dense1_W L) (dense1_b L) relu,
                        dropout L,
                        Dense num_classes_mnist (dense2_W L) (dense2_b L) (\<lambda>v. v)]) X"

text \<open>\<^verbatim>\<open>def get_probability(data): return C.softmax(model(data))\<close>\<close>

definition get_probability_mnist :: "mnist_layers \<Rightarrow> real list list \<Rightarrow> py_error + real list list" where
  "get_probability_mnist L X =
     (case model_mnist L X of Inl e \<Rightarrow> Inl e | Inr S \<Rightarrow> Inr (map softmax S))"

section \<open>Concrete inputs\<close>

text \<open>A label matrix with five one-hot rows over two classes.\<close>

definition Y5 :: csr where
  "Y5 = \<lparr>ncols = 2, rows = [[(0, 1)], [(1, 1)], [(1, 1)], [(0, 1)], [(1, 1)]]\<rparr>"


text \<open>
  A small implementation of the numpy services, with natural numbers as generator
  states and integers standing in for both floating-point types: the seed is the start
  state, the \<open>k\<close>-th draw is computed from the state \<open>k\<close>, and the index array of a
  shuffle is the reversed range.
\<close>

definition toy_numpy :: "(nat, int, int) numpy" where
  "toy_numpy = \<lparr>np_seed = (\<lambda>s. nat \<bar>s\<bar>),
                 np_draw_int = (\<lambda>g lo hi. (lo + int g mod (hi - lo), Suc g)),
                 np_draw_normal = (\<lambda>g. (int g, Suc g)),
                 np_permutation = (\<lambda>g n. (rev [0..<n], Suc g)),
                 f_of_int = (\<lambda>i. i),
                 f_add = (\<lambda>a b. a + b),
                 f_mul = (\<lambda>a b. a * b),
                 f_div = (\<lambda>a b. a div b),
                 astype_float32 = (\<lambda>a. a)\<rparr>"


text \<open>
  A corpus of 60001 samples: 60000 black images labelled 3 and one white image
  labelled 7.
\<close>

definition toy_mnist :: mldata where
  "toy_mnist = \<lparr>data = replicate 60000 (replicate 784 0) @ [replicate 784 255],
                 target = replicate 60000 3 @ [7]\<rparr>"


text \<open>Parameters of the logistic-regression model and a network that keeps every tensor.\<close>

definition toy_parameters :: parameters where
  "toy_parameters = \<lparr>param_W = [[1, 0], [0, 2]], param_b = [0, 1]\<rparr>"

definition toy_layers :: mnist_layers where
  "toy_layers = \<lparr>conv1 = Inr, pool1 = Inr, conv2 = Inr, pool2 = Inr, conv3 = Inr,
                  dense1_W = [], dense1_b = replicate 96 0, dropout = Inr,
                  dense2_W = replicate 96 (replicate 10 0), dense2_b = [0, 1, 2, 3, 4, 5, 6, 7, 8, 9]\<rparr>"


text \<open>A framework state and a held-out set of two samples.\<close>

definition toy_state :: cntk_state where
  "toy_state = \<lparr>trained = toy_parameters, progress = \<lparr>test_errors = 7, test_samples = 9\<rparr>\<rparr>"

definition Y2 :: csr where
  "Y2 = \<lparr>ncols = 2, rows = [[(1, 1)], [(0, 1)]]\<rparr>"

section \<open>Slices and ranges\<close>

lemma adjust_index_nonneg: "0 \<le> i \<Longrightarrow> adjust_index n i = min n (nat i)"
  by (auto simp: adjust_index_def)

lemma py_slice_nonneg:
  assumes "0 \<le> i" and "0 \<le> m"
  shows "py_slice xs i (i + m) = take (nat m) (drop (nat i) xs)"
proof -
  have a: "adjust_index (length xs) i = min (length xs) (nat i)"
    using assms by (simp add: adjust_index_nonneg)
  have b: "adjust_index (length xs) (i + m) = min (length xs) (nat i + nat m)"
    using assms by (simp add: adjust_index_nonneg nat_add_distrib)
  show ?thesis
  proof (cases "nat i \<le> length xs")
    case True
    then have "min (length xs) (nat i + nat m) - min (length xs) (nat i)
                 = min (length xs - nat i) (nat m)"
      by (auto simp: min_def)
    then show ?thesis
      unfolding py_slice_def Let_def a b using True
      by (simp add: min_def)
  next
    case False
    then show ?thesis
      unfolding py_slice_def Let_def a b by (simp add: min_def)
  qed
qed

lemma ceil_div_nat: "0 < k \<Longrightarrow> 0 < n \<Longrightarrow> (n + k - 1) div k = (n - 1) div k + 1" for n k :: nat
proof -
  assume k: "0 < k" and n: "0 < n"
  have "n + k - 1 = (n - 1) + k" using n by arith
  then show ?thesis using k by (simp only: div_add_self2) 
qed

lemma range_length_nat:
  assumes "0 < k"
  shows "range_length 0 (int n) (int k) = (n + k - 1) div k"
proof (cases "n = 0")
  case True
  have "(k - 1) div k = 0" using assms by (intro div_less) arith
  then show ?thesis using True by (simp add: range_length_def)
next
  case False
  then have n: "0 < n" by arith
  have "int n - 1 = int (n - 1)" using n by (simp add: of_nat_diff)
  then have e1: "(int n - 1) div int k + 1 = int ((n - 1) div k + 1)"
    by (simp only: zdiv_int of_nat_add of_nat_1)
  have "range_length 0 (int n) (int k) = nat ((int n - 1) div int k + 1)"
    using n unfolding range_length_def by simp
  also have "\<dots> = (n - 1) div k + 1" unfolding e1 by (rule nat_int)
  also have "\<dots> = (n + k - 1) div k" using ceil_div_nat [OF assms n] by simp
  finally show ?thesis .
qed

lemma py_range_nat:
  assumes "0 < k"
  shows "py_range 0 (int n) (int k) = Inr (map (\<lambda>j. int (j * k)) [0..<(n + k - 1) div k])"
  using assms unfolding py_range_def range_length_nat [OF assms] by simp

lemma ceil_div_covers: "0 < k \<Longrightarrow> n \<le> ((n + k - 1) div k) * k" for n k :: nat
proof -
  assume k: "0 < k"
  have "n + k - 1 = ((n + k - 1) div k) * k + (n + k - 1) mod k" by simp
  moreover have "(n + k - 1) mod k < k" using k by simp
  ultimately show ?thesis by linarith
qed

lemma ceil_div_split: "0 < k \<Longrightarrow> (n + k - 1) div k = n div k + (if n mod k = 0 then 0 else 1)" for n k :: nat
proof -
  assume k: "0 < k"
  define q where "q = n div k"
  define r where "r = n mod k"
  have n: "n = q * k + r" and r: "r < k" using k by (simp_all add: q_def r_def)
  have k0: "k \<noteq> 0" using k by simp
  show ?thesis
  proof (cases "r = 0")
    case True
    have "k - 1 < k" using k by arith
    then have "(k - 1) div k = 0" by (rule div_less)
    then have "(q * k + (k - 1)) div k = q"
      using div_mult_self3 [OF k0, of q "k - 1"] by arith
    moreover have "n + k - 1 = q * k + (k - 1)" using n True k by arith
    ultimately have "(n + k - 1) div k = q" by (simp only:)
    then show ?thesis using True unfolding q_def r_def by simp
  next
    case False
    have "r - 1 < k" using r by arith
    then have "(r - 1) div k = 0" by (rule div_less)
    then have "((q + 1) * k + (r - 1)) div k = q + 1"
      using div_mult_self3 [OF k0, of "q + 1" "r - 1"] by arith
    moreover have "n + k - 1 = (q + 1) * k + (r - 1)"
      using n False by (simp add: algebra_simps)
    ultimately have "(n + k - 1) div k = q + 1" by (simp only:)
    then show ?thesis using False unfolding q_def r_def by simp
  qed
qed

lemma concat_slices_take:
  "concat (map (\<lambda>j. take k (drop (j * k) xs)) [0..<c]) = take (c * k) xs"
proof (induction c)
  case 0
  show ?case by simp
next
  case (Suc c)
  have "take (c * k + k) xs = take (c * k) xs @ take k (drop (c * k) xs)"
    by (rule take_add)
  then show ?case using Suc by (simp add: add.commute)
qed

lemma concat_slices:
  assumes "0 < k"
  shows "concat (map (\<lambda>j. take k (drop (j * k) xs)) [0..<(length xs + k - 1) div k]) = xs"
  using ceil_div_covers [OF assms, of "length xs"] by (simp add: concat_slices_take)

lemma slice_length:
  assumes "0 < k" and "j < (length xs + k - 1) div k"
  shows "length (take k (drop (j * k) xs)) = (if j < length xs div k then k else length xs mod k)"
proof (cases "j < length xs div k")
  case True
  then have "Suc j \<le> length xs div k" by simp
  then have "Suc j * k \<le> (length xs div k) * k" by (rule mult_le_mono1)
  also have "\<dots> \<le> length xs" by simp
  finally have "j * k + k \<le> length xs" by simp
  then show ?thesis using True by simp
next
  case False
  with assms ceil_div_split [OF assms(1), of "length xs"]
  have j: "j = length xs div k" and "length xs mod k \<noteq> 0"
    by (auto split: if_splits)
  have "length xs - (length xs div k) * k = length xs mod k"
    by (simp add: minus_div_mult_eq_mod)
  moreover have "length xs mod k < k" using assms(1) by simp
  ultimately show ?thesis using False j by simp
qed

lemma train_steps_foldl:
  "train_steps tm X Y m is s =
     foldl (\<lambda>s i. tm (py_slice X i (i + m)) (csr_getrows Y i (i + m)) s) s is"
  by (induction "is" arbitrary: s) simp_all

lemma test_steps_foldl:
  "test_steps tm X Y m is s =
     foldl (\<lambda>s i. tm (py_slice X i (i + m)) (csr_getrows Y i (i + m)) s) s is"
  by (induction "is" arbitrary: s) simp_all

section \<open>The minibatch loops visit contiguous slices\<close>

lemma train_loop_nat:
  assumes "0 < k"
  shows "train_loop tm X Y (int k) s =
           Inr (foldl (\<lambda>s j. tm (take k (drop (j * k) X))
                                  (Y\<lparr>rows := take k (drop (j * k) (rows Y))\<rparr>) s)
                      s [0..<(length X + k - 1) div k])"
proof -
  have sl: "py_slice zs (int j * int k) (int j * int k + int k) = take k (drop (j * k) zs)"
    for j and zs :: "'z list"
    using py_slice_nonneg [of "int (j * k)" "int k" zs] by (simp add: nat_mult_distrib)
  have Y: "csr_getrows Y (int j * int k) (int j * int k + int k)
             = Y\<lparr>rows := take k (drop (j * k) (rows Y))\<rparr>" for j
    by (simp add: csr_getrows_def sl)
  show ?thesis
    unfolding train_loop_def py_range_nat [OF assms] train_steps_foldl
    by (simp add: foldl_map sl Y)
qed

lemma test_loop_nat:
  assumes "0 < k"
  shows "test_loop tm X Y (int k) s =
           Inr (foldl (\<lambda>s j. tm (take k (drop (j * k) X))
                                  (Y\<lparr>rows := take k (drop (j * k) (rows Y))\<rparr>) s)
                      s [0..<(length X + k - 1) div k])"
proof -
  have sl: "py_slice zs (int j * int k) (int j * int k + int k) = take k (drop (j * k) zs)"
    for j and zs :: "'z list"
    using py_slice_nonneg [of "int (j * k)" "int k" zs] by (simp add: nat_mult_distrib)
  have Y: "csr_getrows Y (int j * int k) (int j * int k + int k)
             = Y\<lparr>rows := take k (drop (j * k) (rows Y))\<rparr>" for j
    by (simp add: csr_getrows_def sl)
  show ?thesis
    unfolding test_loop_def py_range_nat [OF assms] test_steps_foldl
    by (simp add: foldl_map sl Y)
qed

text \<open>
  What the loop does for a minibatch size that is not positive: \<^verbatim>\<open>range\<close> refuses a
  zero step, and a negative step gives an empty range, so that no minibatch is
  presented at all.
\<close>

lemma train_loop_zero_step: "train_loop tm X Y 0 s = Inl ValueError"
  by (simp add: train_loop_def py_range_def)

lemma train_loop_negative_step: "m < 0 \<Longrightarrow> train_loop tm X Y m s = Inr s"
  by (simp add: train_loop_def py_range_def range_length_def)

text \<open>
  C1. For a training set of \<open>n\<close> samples and a minibatch size \<open>m > 0\<close>, the training
  loop calls the trainer once per slice, in order, on the contiguous slices
  \<open>[0,m), [m,2m), ...\<close>: slice \<open>j\<close> holds the samples from position \<open>j * m\<close> on, \<open>m\<close> of
  them for each of the \<open>n div m\<close> full slices and the \<open>n mod m\<close> remaining ones, unpadded,
  for the final slice when \<open>m\<close> does not divide \<open>n\<close>. The slices put end to end are the
  training set, so every sample is presented exactly once and no two slices overlap;
  each call receives the state the previous call returned.
\<close>

theorem train_loop_contiguous_slices:
  assumes "0 < m"
  shows "train_loop tm X Y m s =
           Inr (foldl (\<lambda>s j. tm (take (nat m) (drop (j * nat m) X))
                                  (Y\<lparr>rows := take (nat m) (drop (j * nat m) (rows Y))\<rparr>) s)
                      s [0..<(length X + nat m - 1) div nat m])
       \<and> concat (map (\<lambda>j. take (nat m) (drop (j * nat m) X))
                     [0..<(length X + nat m - 1) div nat m]) = X
       \<and> (\<forall>j < (length X + nat m - 1) div nat m.
             length (take (nat m) (drop (j * nat m) X))
               = (if j < length X div nat m then nat m else length X mod nat m))
       \<and> (length X + nat m - 1) div nat m
             = length X div nat m + (if length X mod nat m = 0 then 0 else 1)"
proof -
  define k where "k = nat m"
  have k: "0 < k" and m: "m = int k" using assms by (simp_all add: k_def)
  have "train_loop tm X Y (int k) s =
           Inr (foldl (\<lambda>s j. tm (take k (drop (j * k) X))
                                  (Y\<lparr>rows := take k (drop (j * k) (rows Y))\<rparr>) s)
                      s [0..<(length X + k - 1) div k])"
    by (rule train_loop_nat [OF k])
  moreover have "concat (map (\<lambda>j. take k (drop (j * k) X)) [0..<(length X + k - 1) div k]) = X"
    by (rule concat_slices [OF k])
  moreover have "\<forall>j < (length X + k - 1) div k.
             length (take k (drop (j * k) X))
               = (if j < length X div k then k else length X mod k)"
    using slice_length [OF k] by blast
  moreover have "(length X + k - 1) div k
             = length X div k + (if length X mod k = 0 then 0 else 1)"
    by (rule ceil_div_split [OF k])
  ultimately show ?thesis unfolding m nat_int by blast
qed

theorem train_loop_contiguous_slices_witness:
  "(0::int) < 2 \<and>
   train_loop (\<lambda>x y seen. seen @ [(x, rows y)]) [10, 20, 30, 40, 50 :: int] Y5 2 []
     = Inr [([10, 20], [[(0, 1)], [(1, 1)]]), ([30, 40], [[(1, 1)], [(0, 1)]]), ([50], [[(1, 1)]])]"
  using train_loop_contiguous_slices [of 2 "\<lambda>x y seen. seen @ [(x, rows y)]" "[10, 20, 30, 40, 50 :: int]" Y5 "[]"]
  by (simp add: Y5_def upt_rec)

lemma slice_rows_match:
  assumes "length X = nrows Y"
  shows "length (py_slice X i j) = nrows (csr_getrows Y i j)"
  using assms by (simp add: py_slice_def csr_getrows_def nrows_def Let_def)

lemma train_steps_log:
  "train_steps (\<lambda>x y seen. seen @ [(x, y)]) X Y m is seen =
     seen @ map (\<lambda>i. (py_slice X i (i + m), csr_getrows Y i (i + m))) is"
  by (induction "is" arbitrary: seen) simp_all

lemma test_steps_log:
  "test_steps (\<lambda>x y seen. seen @ [(x, y)]) X Y m is seen =
     seen @ map (\<lambda>i. (py_slice X i (i + m), csr_getrows Y i (i + m))) is"
  by (induction "is" arbitrary: seen) simp_all

lemma presented_rows_match:
  assumes "length X = nrows Y" and "presented X Y m = Inr bs" and "b \<in> set bs"
  shows "length (fst b) = nrows (snd b)"
proof -
  from assms(2) obtain "is" where
    bs: "bs = map (\<lambda>i. (py_slice X i (i + m), csr_getrows Y i (i + m))) is"
    by (auto simp: presented_def train_loop_def train_steps_log split: sum.splits)
  with assms(3) obtain i where "b = (py_slice X i (i + m), csr_getrows Y i (i + m))"
    by auto
  then show ?thesis using slice_rows_match [OF assms(1)] by simp
qed

lemma tested_rows_match:
  assumes "length X = nrows Y" and "tested X Y m = Inr bs" and "b \<in> set bs"
  shows "length (fst b) = nrows (snd b)"
proof -
  from assms(2) obtain "is" where
    bs: "bs = map (\<lambda>i. (py_slice X i (i + m), csr_getrows Y i (i + m))) is"
    by (auto simp: tested_def test_loop_def test_steps_log split: sum.splits)
  with assms(3) obtain i where "b = (py_slice X i (i + m), csr_getrows Y i (i + m))"
    by auto
  then show ?thesis using slice_rows_match [OF assms(1)] by simp
qed

text \<open>
  C8. When the feature array and the label matrix have the same number of rows, the
  slices \<open>X[i:i+m]\<close> and \<open>Y[i:i+m]\<close> have the same number of rows for every index \<open>i\<close> and
  every \<open>m\<close>; in particular every minibatch the training loop passes to the trainer, and
  every minibatch the test loop passes to the evaluator, has as many feature rows as
  label rows.
\<close>

theorem minibatch_feature_label_counts_match:
  assumes "length X = nrows Y"
  shows "(\<forall>i. length (py_slice X i (i + m)) = nrows (csr_getrows Y i (i + m)))
       \<and> (\<forall>bs. presented X Y m = Inr bs \<longrightarrow> (\<forall>b \<in> set bs. length (fst b) = nrows (snd b)))
       \<and> (\<forall>bs. tested X Y m = Inr bs \<longrightarrow> (\<forall>b \<in> set bs. length (fst b) = nrows (snd b)))"
  using slice_rows_match [OF assms] presented_rows_match [OF assms] tested_rows_match [OF assms]
  by blast

lemma presented_Y5: "presented [10, 20, 30, 40, 50 :: int] Y5 2 =
     Inr [([10, 20], \<lparr>ncols = 2, rows = [[(0, 1)], [(1, 1)]]\<rparr>),
          ([30, 40], \<lparr>ncols = 2, rows = [[(1, 1)], [(0, 1)]]\<rparr>),
          ([50], \<lparr>ncols = 2, rows = [[(1, 1)]]\<rparr>)]"
  by (simp add: presented_def train_loop_def py_range_def range_length_def upt_rec
        py_slice_def adjust_index_def csr_getrows_def Y5_def)

theorem minibatch_feature_label_counts_match_witness:
  "length [10, 20, 30, 40, 50 :: int] = nrows Y5
   \<and> length (py_slice [10, 20, 30, 40, 50 :: int] 4 (4 + 2)) = 1
   \<and> nrows (csr_getrows Y5 4 (4 + 2)) = 1
   \<and> list_all (\<lambda>b. length (fst b) = nrows (snd b))
        [([10, 20 :: int], \<lparr>ncols = 2, rows = [[(0, 1)], [(1, 1)]]\<rparr>),
          ([30, 40], \<lparr>ncols = 2, rows = [[(1, 1)], [(0, 1)]]\<rparr>),
          ([50], \<lparr>ncols = 2, rows = [[(1, 1)]]\<rparr>)]"
proof -
  have h: "length [10, 20, 30, 40, 50 :: int] = nrows Y5"
    by (simp add: Y5_def nrows_def)
  from minibatch_feature_label_counts_match [OF h, of 2] presented_Y5
  have "\<forall>b \<in> set [([10, 20 :: int], \<lparr>ncols = 2, rows = [[(0, 1)], [(1, 1)]]\<rparr>),
          ([30, 40], \<lparr>ncols = 2, rows = [[(1, 1)], [(0, 1)]]\<rparr>),
          ([50], \<lparr>ncols = 2, rows = [[(1, 1)]]\<rparr>)]. length (fst b) = nrows (snd b)"
    by blast
  then have "list_all (\<lambda>b. length (fst b) = nrows (snd b))
        [([10, 20 :: int], \<lparr>ncols = 2, rows = [[(0, 1)], [(1, 1)]]\<rparr>),
          ([30, 40], \<lparr>ncols = 2, rows = [[(1, 1)], [(0, 1)]]\<rparr>),
          ([50], \<lparr>ncols = 2, rows = [[(1, 1)]]\<rparr>)]"
    unfolding list_all_iff .
  moreover have "length (py_slice [10, 20, 30, 40, 50 :: int] 4 (4 + 2)) = 1"
    by (simp add: py_slice_def adjust_index_def)
  moreover have "nrows (csr_getrows Y5 4 (4 + 2)) = 1"
    using minibatch_feature_label_counts_match [OF h, of 2] \<open>length (py_slice [10, 20, 30, 40, 50 :: int] 4 (4 + 2)) = 1\<close>
    by metis
  ultimately show ?thesis using h by blast
qed

section \<open>One-hot label matrices\<close>

lemma filter_zip_upt:
  "filter (\<lambda>t. fst t = int r) (zip (map int [k..<k + length ys]) ys)
     = (if k \<le> r \<and> r < k + length ys then [(int r, ys ! (r - k))] else [])"
proof (induction ys arbitrary: k)
  case Nil
  show ?case by simp
next
  case (Cons y ys)
  have u: "[k..<k + length (y # ys)] = k # [Suc k..<Suc k + length ys]"
    by (subst upt_rec) simp
  show ?case
  proof (cases "k = r")
    case True
    then show ?thesis unfolding u using Cons [of "Suc k"] by simp
  next
    case False
    then have "(y # ys) ! (r - k) = ys ! (r - Suc k)" if "k \<le> r"
    proof -
      from that False have "r - k = Suc (r - Suc k)" by arith
      then show ?thesis by simp
    qed
    then show ?thesis unfolding u using Cons [of "Suc k"] False by auto
  qed
qed

lemma csr_matrix_rows:
  assumes "csr_matrix (replicate n 1) (map int [0..<n]) cols (n, c) = Inr M"
  shows "length cols = n" and "\<forall>x \<in> set cols. 0 \<le> x \<and> x < int c"
    and "ncols M = c" and "nrows M = n"
    and "\<forall>i < n. rows M ! i = [(nat (cols ! i), 1)]"
proof -
  from assms have len: "length cols = n"
    by (simp add: csr_matrix_def split: if_splits)
  from assms have rng: "\<not> list_ex (\<lambda>c'. c' < 0 \<or> int c \<le> c') cols"
    by (simp add: csr_matrix_def split: if_splits)
  from assms have M: "M = \<lparr>ncols = c,
       rows = map (\<lambda>r. map (\<lambda>t. (nat (fst (snd t)), snd (snd t)))
                (filter (\<lambda>t. fst t = int r) (zip (map int [0..<n]) (zip cols (replicate n 1)))))
              [0..<n]\<rparr>"
    by (simp add: csr_matrix_def split: if_splits)
  show "length cols = n" by (rule len)
  show "\<forall>x \<in> set cols. 0 \<le> x \<and> x < int c"
    using rng by (auto simp: list_ex_iff)
  show "ncols M = c" by (simp add: M)
  show "nrows M = n" by (simp add: M nrows_def)
  show "\<forall>i < n. rows M ! i = [(nat (cols ! i), 1)]"
  proof (intro allI impI)
    fix i assume i: "i < n"
    have "length (zip cols (replicate n (1::real))) = n" using len by simp
    then have "filter (\<lambda>t. fst t = int i) (zip (map int [0..<n]) (zip cols (replicate n (1::real))))
                 = [(int i, zip cols (replicate n 1) ! i)]"
      using filter_zip_upt [of i 0 "zip cols (replicate n (1::real))"] i by simp
    then show "rows M ! i = [(nat (cols ! i), 1)]"
      using i len by (simp add: M)
  qed
qed

lemma one_hot_update:
  assumes "q < c"
  shows "one_hot ((replicate c 0)[q := 1])" and "sum_list ((replicate c (0::real))[q := 1]) = 1"
proof -
  have e: "(replicate c (0::real))[q := 1] = replicate q 0 @ 1 # replicate (c - Suc q) 0"
    using assms by (simp add: upd_conv_take_nth_drop min_def)
  show "one_hot ((replicate c 0)[q := 1])"
    unfolding e one_hot_def by (auto simp: list_all_iff)
  show "sum_list ((replicate c (0::real))[q := 1]) = 1"
    unfolding e by (simp add: sum_list_replicate)
qed

lemma csr_row_dense_single:
  assumes "rows M ! i = [(q, 1)]" and "q < ncols M"
  shows "csr_row_dense M i = (replicate (ncols M) 0)[q := 1]"
proof (rule nth_equalityI)
  show "length (csr_row_dense M i) = length ((replicate (ncols M) (0::real))[q := 1])"
    by (simp add: csr_row_dense_def)
next
  fix j assume "j < length (csr_row_dense M i)"
  then have j: "j < ncols M" by (simp add: csr_row_dense_def)
  then show "csr_row_dense M i ! j = (replicate (ncols M) 0)[q := 1] ! j"
    using assms by (simp add: csr_row_dense_def nth_list_update)
qed

lemma csr_matrix_one_hot:
  assumes "csr_matrix (replicate n 1) (map int [0..<n]) cols (n, c) = Inr M" and "i < n"
  shows "csr_row_dense M i = (replicate c 0)[nat (cols ! i) := 1]"
    and "one_hot (csr_row_dense M i)" and "sum_list (csr_row_dense M i) = 1"
proof -
  note r = csr_matrix_rows [OF assms(1)]
  have ci: "cols ! i \<in> set cols" using r(1) assms(2) by simp
  then have q: "nat (cols ! i) < c" using r(2) by auto
  have row: "rows M ! i = [(nat (cols ! i), 1)]" using r(5) assms(2) by simp
  show d: "csr_row_dense M i = (replicate c 0)[nat (cols ! i) := 1]"
    using csr_row_dense_single [OF row] q r(3) by simp
  show "one_hot (csr_row_dense M i)" unfolding d by (rule one_hot_update(1) [OF q])
  show "sum_list (csr_row_dense M i) = 1" unfolding d by (rule one_hot_update(2) [OF q])
qed

section \<open>The synthetic data\<close>

lemma draws_length: "length (fst (draws d n g)) = n"
proof (induction n arbitrary: g)
  case 0
  show ?case by simp
next
  case (Suc n)
  obtain x g1 where d: "d g = (x, g1)" by (cases "d g")
  obtain xs g2 where ds: "draws d n g1 = (xs, g2)" by (cases "draws d n g1")
  have "length xs = n" using Suc [of g1] ds by simp
  then show ?case using d ds by simp
qed

lemma draws_all:
  assumes "\<And>g. P (fst (d g))"
  shows "\<forall>x \<in> set (fst (draws d n g)). P x"
proof (induction n arbitrary: g)
  case 0
  show ?case by simp
next
  case (Suc n)
  obtain x g1 where d: "d g = (x, g1)" by (cases "d g")
  obtain xs g2 where ds: "draws d n g1 = (xs, g2)" by (cases "draws d n g1")
  have "P x" using assms [of g] d by simp
  moreover have "\<forall>y \<in> set xs. P y" using Suc [of g1] ds by simp
  ultimately show ?case using d ds by simp
qed

lemma csr_matrix_succeeds:
  assumes "length cols = n" and "\<forall>x \<in> set cols. 0 \<le> x \<and> x < int c"
  shows "\<exists>M. csr_matrix (replicate n 1) (map int [0..<n]) cols (n, c) = Inr M"
proof -
  have "\<not> list_ex (\<lambda>r. r < 0 \<or> int n \<le> r) (map int [0..<n])"
    by (auto simp: list_ex_iff)
  moreover have "\<not> list_ex (\<lambda>c'. c' < 0 \<or> int c \<le> c') cols"
    using assms(2) by (auto simp: list_ex_iff)
  ultimately show ?thesis using assms(1) by (simp add: csr_matrix_def)
qed

lemma generate_synthetic_data_result:
  assumes N: "0 \<le> N"
    and range: "\<And>g. 0 \<le> fst (np_draw_int np g 0 (int num_classes))
                    \<and> fst (np_draw_int np g 0 (int num_classes)) < int num_classes"
    and labels: "randint np (nat N) 0 (int num_classes) g = (labels, g1)"
    and R: "randn np (nat N) input_dim g1 = (R, g2)"
  shows "\<exists>Y. generate_synthetic_data np N g =
           Inr ((map (map (astype_float32 np))
                  (map2 (\<lambda>r y. map (\<lambda>v. f_mul np (f_add np v (f_of_int np 3)) (f_of_int np (y + 1))) r)
                     R labels), Y), g2)
           \<and> csr_matrix (replicate (nat N) 1) (map int [0..<nat N]) labels (nat N, num_classes) = Inr Y"
proof -
  have len: "length labels = nat N"
    using draws_length [of "\<lambda>g. np_draw_int np g 0 (int num_classes)" "nat N" g] labels
    by (simp add: randint_def)
  have rng: "\<forall>x \<in> set labels. 0 \<le> x \<and> x < int num_classes"
    using draws_all [of "\<lambda>x. 0 \<le> x \<and> x < int num_classes" "\<lambda>g. np_draw_int np g 0 (int num_classes)" "nat N" g]
      range labels
    by (simp add: randint_def)
  from csr_matrix_succeeds [OF len rng] obtain Y where
    Y: "csr_matrix (replicate (nat N) 1) (map int [0..<nat N]) labels (nat N, num_classes) = Inr Y"
    by blast
  have "generate_synthetic_data np N g =
           Inr ((map (map (astype_float32 np))
                  (map2 (\<lambda>r y. map (\<lambda>v. f_mul np (f_add np v (f_of_int np 3)) (f_of_int np (y + 1))) r)
                     R labels), Y), g2)"
    using N labels R Y by (simp add: generate_synthetic_data_def Let_def)
  then show ?thesis using Y by blast
qed


lemma randn_shape:
  assumes "randn np N D g = (R, g')"
  shows "length R = N" and "\<forall>r \<in> set R. length r = D"
proof -
  show "length R = N"
    using draws_length [of "draws (np_draw_normal np) D" N g] assms by (simp add: randn_def)
  have "\<forall>r \<in> set (fst (draws (draws (np_draw_normal np) D) N g)). length r = D"
    by (rule draws_all) (rule draws_length)
  then show "\<forall>r \<in> set R. length r = D" using assms by (simp add: randn_def)
qed

text \<open>
  C5. For every requested count \<open>N \<ge> 0\<close>, and a generator whose integer draws lie in
  the requested range, \<open>generate_synthetic_data N\<close> returns: the feature matrix has
  \<open>N\<close> rows of \<open>input_dim\<close> float32 entries, the label matrix has \<open>N\<close> rows and
  \<open>num_classes\<close> columns, and row \<open>i\<close> of the features is computed from the very label
  whose one-hot encoding is row \<open>i\<close> of the label matrix.
\<close>

theorem generate_synthetic_data_returns_N_samples:
  assumes "0 \<le> N"
    and "\<And>g. 0 \<le> fst (np_draw_int np g 0 (int num_classes))
               \<and> fst (np_draw_int np g 0 (int num_classes)) < int num_classes"
    and "randint np (nat N) 0 (int num_classes) g = (labels, g1)"
    and "randn np (nat N) input_dim g1 = (R, g2)"
  shows "\<exists>X Y. generate_synthetic_data np N g = Inr ((X, Y), g2)
           \<and> length X = nat N \<and> (\<forall>x \<in> set X. length x = input_dim)
           \<and> nrows Y = nat N \<and> ncols Y = num_classes
           \<and> (\<forall>i < nat N.
                 X ! i = map (\<lambda>v. astype_float32 np
                               (f_mul np (f_add np v (f_of_int np 3)) (f_of_int np (labels ! i + 1))))
                           (R ! i)
                 \<and> csr_row_dense Y i = (replicate num_classes 0)[nat (labels ! i) := 1])"
proof -
  define X where "X = map (map (astype_float32 np))
                  (map2 (\<lambda>r y. map (\<lambda>v. f_mul np (f_add np v (f_of_int np 3)) (f_of_int np (y + 1))) r)
                     R labels)"
  from generate_synthetic_data_result [OF assms] obtain Y where
    gen: "generate_synthetic_data np N g = Inr ((X, Y), g2)" and
    Y: "csr_matrix (replicate (nat N) 1) (map int [0..<nat N]) labels (nat N, num_classes) = Inr Y"
    unfolding X_def by blast
  note rows = csr_matrix_rows [OF Y]
  note shape = randn_shape [OF assms(4)]
  have lenX: "length X = nat N" using rows(1) shape(1) by (simp add: X_def)
  have rowX: "X ! i = map (\<lambda>v. astype_float32 np
                               (f_mul np (f_add np v (f_of_int np 3)) (f_of_int np (labels ! i + 1))))
                           (R ! i)" if "i < nat N" for i
    using that rows(1) shape(1) by (simp add: X_def)
  have dimX: "\<forall>x \<in> set X. length x = input_dim"
  proof
    fix x assume "x \<in> set X"
    then obtain i where i: "i < nat N" and x: "x = X ! i"
      using lenX by (auto simp: in_set_conv_nth)
    have "R ! i \<in> set R" using i shape(1) by simp
    then show "length x = input_dim" using shape(2) rowX [OF i] x by simp
  qed
  have "\<forall>i < nat N. X ! i = map (\<lambda>v. astype_float32 np
                               (f_mul np (f_add np v (f_of_int np 3)) (f_of_int np (labels ! i + 1))))
                           (R ! i)
                 \<and> csr_row_dense Y i = (replicate num_classes 0)[nat (labels ! i) := 1]"
    using rowX csr_matrix_one_hot(1) [OF Y] by blast
  with gen lenX dimX rows(3,4) show ?thesis by blast
qed

lemma toy_randint_3: "randint toy_numpy 3 0 2 0 = ([0, 1, 0], 3)"
  by (simp add: randint_def toy_numpy_def numeral_3_eq_3)

lemma toy_randn_3: "randn toy_numpy 3 2 3 = ([[3, 4], [5, 6], [7, 8]], 9)"
  by (simp add: randn_def toy_numpy_def numeral_3_eq_3 numeral_2_eq_2)

lemma toy_draw_int_range:
  "0 \<le> fst (np_draw_int toy_numpy g 0 (int num_classes))
     \<and> fst (np_draw_int toy_numpy g 0 (int num_classes)) < int num_classes"
  by (simp add: toy_numpy_def num_classes_def)

theorem generate_synthetic_data_returns_N_samples_witness:
  "(0::int) \<le> 3
   \<and> randint toy_numpy (nat 3) 0 (int num_classes) 0 = ([0, 1, 0], 3)
   \<and> randn toy_numpy (nat 3) input_dim 3 = ([[3, 4], [5, 6], [7, 8]], 9)
   \<and> (\<exists>X Y. generate_synthetic_data toy_numpy 3 0 = Inr ((X, Y), 9)
         \<and> length X = 3 \<and> nrows Y = 3 \<and> ncols Y = 2
         \<and> X ! 1 = [16, 18] \<and> csr_row_dense Y 1 = [0, 1])"
proof -
  have h1: "(0::int) \<le> 3" by simp
  have h3: "randint toy_numpy (nat 3) 0 (int num_classes) 0 = ([0, 1, 0], 3)"
    using toy_randint_3 by (simp add: num_classes_def)
  have h4: "randn toy_numpy (nat 3) input_dim 3 = ([[3, 4], [5, 6], [7, 8]], 9)"
    using toy_randn_3 by (simp add: input_dim_def)
  from generate_synthetic_data_returns_N_samples [OF h1 toy_draw_int_range h3 h4]
  obtain X Y where
    r: "generate_synthetic_data toy_numpy 3 0 = Inr ((X, Y), 9)"
       "length X = nat 3" "nrows Y = nat 3" "ncols Y = num_classes"
    and rows: "\<forall>i < nat 3.
                 X ! i = map (\<lambda>v. astype_float32 toy_numpy
                               (f_mul toy_numpy (f_add toy_numpy v (f_of_int toy_numpy 3))
                                  (f_of_int toy_numpy ([0, 1, 0] ! i + 1))))
                           ([[3, 4], [5, 6], [7, 8]] ! i)
                 \<and> csr_row_dense Y i = (replicate num_classes 0)[nat ([0, 1, 0] ! i) := 1]"
    by blast
  have "(1::nat) < nat 3" by simp
  with rows have "X ! 1 = map (\<lambda>v. astype_float32 toy_numpy
                               (f_mul toy_numpy (f_add toy_numpy v (f_of_int toy_numpy 3))
                                  (f_of_int toy_numpy ([0, 1, 0] ! 1 + 1))))
                           ([[3, 4], [5, 6], [7, 8]] ! 1)"
    and "csr_row_dense Y 1 = (replicate num_classes 0)[nat ([0, 1, 0] ! 1) := 1]"
    by blast+
  then have "X ! 1 = [16, 18]" and "csr_row_dense Y 1 = [0, 1]"
    by (simp_all add: toy_numpy_def num_classes_def numeral_2_eq_2)
  with r h1 h3 h4 show ?thesis by (simp add: num_classes_def)
qed

text \<open>
  C3. The six arrays the script computes do not depend on the state the generator has
  when the script starts: \<open>np.random.seed(0)\<close> runs once, before the first call of
  \<open>generate_synthetic_data\<close>, so two executions compute identical
  \<open>X_train, Y_train, X_test, Y_test, X_check, Y_check\<close>.
\<close>

theorem synthetic_data_deterministic:
  "synthetic_arrays np g0 = synthetic_arrays np g0'"
  by (simp add: synthetic_arrays_def np_random_seed_def)

theorem synthetic_data_deterministic_witness:
  "synthetic_arrays toy_numpy 5 = synthetic_arrays toy_numpy 77"
  by (rule synthetic_data_deterministic)

section \<open>Loading the MNIST corpus\<close>

lemma py_slice_prefix: "0 \<le> k \<Longrightarrow> py_slice xs 0 k = take (nat k) xs"
  using py_slice_nonneg [of 0 k xs] by simp

lemma py_slice_suffix: "0 \<le> k \<Longrightarrow> py_slice xs k (int (length xs)) = drop (nat k) xs"
  by (auto simp: py_slice_def adjust_index_def Let_def)

lemma take_drop_concat:
  assumes "\<forall>r \<in> set A. length r = n" and "j < length A"
  shows "take n (drop (j * n) (concat A)) = A ! j"
  using assms
proof (induction A arbitrary: j)
  case Nil
  then show ?case by simp
next
  case (Cons a A)
  then have a: "length a = n" by simp
  show ?case
  proof (cases j)
    case 0
    then show ?thesis using a by simp
  next
    case (Suc i)
    then have "take n (drop (i * n) (concat A)) = A ! i" using Cons by simp
    then show ?thesis using Suc a by (simp add: add.commute)
  qed
qed

lemma length_concat_rows:
  assumes "\<forall>r \<in> set A. length r = n"
  shows "length (concat A) = length A * n"
  using assms by (induction A) simp_all

lemma chunks_concat:
  assumes "\<forall>r \<in> set A. length r = n" and "0 < n"
  shows "chunks n (concat A) = A"
proof -
  have "chunks n (concat A) = map (\<lambda>j. take n (drop (j * n) (concat A))) [0..<length A]"
    using assms(2) by (simp add: chunks_def length_concat_rows [OF assms(1)])
  also have "\<dots> = map (\<lambda>j. A ! j) [0..<length A]"
    using take_drop_concat [OF assms(1)] by simp
  also have "\<dots> = A" by (rule map_nth)
  finally show ?thesis .
qed

lemma reshape_rows:
  assumes "\<forall>r \<in> set A. length r = 28 * 28"
  shows "reshape_28_28 A = Inr (map (chunks 28) A)"
proof -
  have "length (concat A) mod (28 * 28) = 0"
    by (simp add: length_concat_rows [OF assms])
  moreover have "chunks (28 * 28) (concat A) = A"
    by (rule chunks_concat [OF assms]) simp
  ultimately show ?thesis by (simp add: reshape_28_28_def)
qed

lemma shuffle_result:
  assumes "length A = length B" and "np_permutation np g (length A) = (idx, g')"
    and "\<forall>i \<in> set idx. i < length A"
  shows "shuffle np A B g = Inr ((map (\<lambda>i. A ! i) idx, map (\<lambda>i. B ! i) idx), g')"
proof -
  have "\<not> list_ex (\<lambda>i. length A \<le> i) idx"
    using assms(3) by (auto simp: list_ex_iff)
  then show ?thesis using assms(1,2) by (simp add: shuffle_def)
qed

lemma csr_todense_one_hot:
  assumes "csr_matrix (replicate n 1) (map int [0..<n]) cols (n, c) = Inr M"
  shows "csr_todense M = map (one_hot_row c) cols"
proof (rule nth_equalityI)
  note r = csr_matrix_rows [OF assms]
  show "length (csr_todense M) = length (map (one_hot_row c) cols)"
    using r(1,4) by (simp add: csr_todense_def)
  fix i assume "i < length (csr_todense M)"
  then have i: "i < n" using r(4) by (simp add: csr_todense_def)
  then show "csr_todense M ! i = map (one_hot_row c) cols ! i"
    using csr_matrix_one_hot(1) [OF assms i] r(1,4)
    by (simp add: csr_todense_def one_hot_row_def)
qed

lemma csr_todense_rows_one_hot:
  assumes "csr_matrix (replicate n 1) (map int [0..<n]) cols (n, c) = Inr M"
    and "v \<in> set (csr_todense M)"
  shows "one_hot v" and "sum_list v = 1"
proof -
  note r = csr_matrix_rows [OF assms(1)]
  from assms(2) obtain i where i: "i < n" and v: "v = csr_row_dense M i"
    using r(4) by (auto simp: csr_todense_def)
  show "one_hot v" unfolding v by (rule csr_matrix_one_hot(2) [OF assms(1) i])
  show "sum_list v = 1" unfolding v by (rule csr_matrix_one_hot(3) [OF assms(1) i])
qed

lemma one_hot_labels_result:
  assumes "\<forall>y \<in> set Y. 0 \<le> y \<and> y < 10"
  shows "\<exists>M. one_hot_labels Y = Inr M \<and> csr_todense M = map (one_hot_row 10) Y"
proof -
  from csr_matrix_succeeds [of Y "length Y" 10] assms obtain M where
    M: "csr_matrix (replicate (length Y) 1) (map int [0..<length Y]) Y (length Y, 10) = Inr M"
    by auto
  then show ?thesis using csr_todense_one_hot [OF M] by (simp add: one_hot_labels_def)
qed

lemma fetch_mnist_result:
  assumes rows: "\<forall>r \<in> set (data mnist). length r = 28 * 28"
    and len: "length (target mnist) = length (data mnist)"
    and lab: "\<forall>t \<in> set (target mnist). 0 \<le> astype_int t \<and> astype_int t < 10"
    and perm: "np_permutation np (np_seed np 0) (min (length (data mnist)) 60000) = (idx, g')"
    and idx: "\<forall>i \<in> set idx. i < min (length (data mnist)) 60000"
  shows "\<exists>Y_train Y_test.
           fetch_mnist np mnist g =
             Inr (map (\<lambda>i. sample_image np (data mnist ! i)) idx, Y_train,
                  map (sample_image np) (drop 60000 (data mnist)), Y_test)
           \<and> csr_todense Y_train = map (\<lambda>i. one_hot_row 10 (astype_int (target mnist ! i))) idx
           \<and> csr_todense Y_test = map (\<lambda>t. one_hot_row 10 (astype_int t)) (drop 60000 (target mnist))"
proof -
  define X where "X = map (map (\<lambda>p. f_div np (f_of_int np (int p)) (f_of_int np 255))) (data mnist)"
  define n where "n = min (length (data mnist)) 60000"
  have lenX: "length X = length (data mnist)" by (simp add: X_def)
  have rowsX: "\<forall>r \<in> set X. length r = 28 * 28" using rows by (auto simp: X_def)
  have s1: "py_slice X 0 60000 = take 60000 X" using py_slice_prefix [of 60000 X] by simp
  have s2: "py_slice X 60000 (int (length X)) = drop 60000 X"
    using py_slice_suffix [of 60000 X] by simp
  have s3: "py_slice (target mnist) 0 60000 = take 60000 (target mnist)"
    using py_slice_prefix [of 60000 "target mnist"] by simp
  have s4: "py_slice (target mnist) 60000 (int (length (target mnist))) = drop 60000 (target mnist)"
    using py_slice_suffix [of 60000 "target mnist"] by simp
  have r1: "reshape_28_28 (take 60000 X) = Inr (map (chunks 28) (take 60000 X))"
    using rowsX by (intro reshape_rows) (auto dest: in_set_takeD)
  have r2: "reshape_28_28 (drop 60000 X) = Inr (map (chunks 28) (drop 60000 X))"
    using rowsX by (intro reshape_rows) (auto dest: in_set_dropD)
  define Xtr where "Xtr = map (chunks 28) (take 60000 X)"
  define Ytr where "Ytr = map astype_int (take 60000 (target mnist))"
  have lXtr: "length Xtr = n" by (simp add: Xtr_def n_def lenX)
  have lYtr: "length Ytr = n" by (simp add: Ytr_def n_def len)
  have sh: "shuffle np Xtr Ytr (np_seed np 0)
              = Inr ((map (\<lambda>i. Xtr ! i) idx, map (\<lambda>i. Ytr ! i) idx), g')"
    using perm idx by (intro shuffle_result) (simp_all add: lXtr lYtr n_def)
  have labtr: "\<forall>y \<in> set (map (\<lambda>i. Ytr ! i) idx). 0 \<le> y \<and> y < 10"
  proof
    fix y assume "y \<in> set (map (\<lambda>i. Ytr ! i) idx)"
    then obtain i where i: "i \<in> set idx" and y: "y = Ytr ! i" by auto
    from i idx have "i < n" by (simp add: n_def)
    then have "Ytr ! i \<in> set Ytr" using lYtr by simp
    then obtain t where "t \<in> set (target mnist)" and "Ytr ! i = astype_int t"
      by (auto simp: Ytr_def dest: in_set_takeD)
    then show "0 \<le> y \<and> y < 10" using lab y by auto
  qed
  have labte: "\<forall>y \<in> set (map astype_int (drop 60000 (target mnist))). 0 \<le> y \<and> y < 10"
    using lab by (auto dest: in_set_dropD)
  from one_hot_labels_result [OF labtr] obtain Y_train where
    Y_train: "one_hot_labels (map (\<lambda>i. Ytr ! i) idx) = Inr Y_train"
      "csr_todense Y_train = map (one_hot_row 10) (map (\<lambda>i. Ytr ! i) idx)"
    by blast
  from one_hot_labels_result [OF labte] obtain Y_test where
    Y_test: "one_hot_labels (map astype_int (drop 60000 (target mnist))) = Inr Y_test"
      "csr_todense Y_test = map (one_hot_row 10) (map astype_int (drop 60000 (target mnist)))"
    by blast
  have f: "fetch_mnist np mnist g =
             Inr (map (map (map (astype_float32 np))) (map (\<lambda>i. Xtr ! i) idx), Y_train,
                  map (map (map (astype_float32 np))) (map (chunks 28) (drop 60000 X)), Y_test)"
    unfolding fetch_mnist_def Let_def X_def [symmetric] lenX [symmetric] s1 s2 s3 s4 r1 r2
      np_random_seed_def
    using sh Y_train(1) Y_test(1) by (simp add: Xtr_def Ytr_def)
  have img: "map (map (astype_float32 np)) (Xtr ! i) = sample_image np (data mnist ! i)"
    if "i \<in> set idx" for i
  proof -
    from that idx have "i < n" by (simp add: n_def)
    then show ?thesis by (simp add: Xtr_def X_def n_def sample_image_def)
  qed
  have lbl: "Ytr ! i = astype_int (target mnist ! i)" if "i \<in> set idx" for i
  proof -
    from that idx have "i < n" by (simp add: n_def)
    then show ?thesis using len by (simp add: Ytr_def n_def)
  qed
  have e1: "map (map (map (astype_float32 np))) (map (\<lambda>i. Xtr ! i) idx)
              = map (\<lambda>i. sample_image np (data mnist ! i)) idx"
    using img by simp
  have e2: "map (map (map (astype_float32 np))) (map (chunks 28) (drop 60000 X))
              = map (sample_image np) (drop 60000 (data mnist))"
    by (simp add: X_def sample_image_def drop_map)
  have e3: "map (one_hot_row 10) (map (\<lambda>i. Ytr ! i) idx)
              = map (\<lambda>i. one_hot_row 10 (astype_int (target mnist ! i))) idx"
    using lbl by simp
  have e4: "map (one_hot_row 10) (map astype_int (drop 60000 (target mnist)))
              = map (\<lambda>t. one_hot_row 10 (astype_int t)) (drop 60000 (target mnist))"
    by simp
  show ?thesis
    using f Y_train(2) Y_test(2) unfolding e1 e2 e3 e4 by blast
qed

lemma fetch_mnist_labels:
  assumes "fetch_mnist np mnist g = Inr (X_train, Y_train, X_test, Y_test)"
  shows "\<exists>Y1 Y2. one_hot_labels Y1 = Inr Y_train \<and> one_hot_labels Y2 = Inr Y_test"
  using assms
  by (auto simp: fetch_mnist_def Let_def split: sum.splits prod.splits)

text \<open>
  C10. On a corpus whose rows are 28 * 28 pixels, with one label in \<open>0..9\<close> per row,
  \<open>fetch_mnist\<close> returns: the training set is made of the samples at positions below
  60000, each exactly once, in the order of the one index array that the generator
  seeded with 0 produces, and the same index array orders the labels, so every training
  image keeps the label of its corpus row; the test set is made of all the remaining
  samples (positions from 60000 on) in corpus order, image \<open>k\<close> with label \<open>k\<close>. No
  sample is in both sets and none is lost.
\<close>

theorem fetch_mnist_partition:
  assumes "\<forall>r \<in> set (data mnist). length r = 28 * 28"
    and "length (target mnist) = length (data mnist)"
    and "\<forall>t \<in> set (target mnist). 0 \<le> astype_int t \<and> astype_int t < 10"
    and "np_permutation np (np_seed np 0) (min (length (data mnist)) 60000) = (idx, g')"
    and "distinct idx"
    and "set idx = {0..<min (length (data mnist)) 60000}"
  shows "\<exists>Y_train Y_test.
           fetch_mnist np mnist g =
             Inr (map (\<lambda>i. sample_image np (data mnist ! i)) idx, Y_train,
                  map (sample_image np) (drop 60000 (data mnist)), Y_test)
           \<and> csr_todense Y_train = map (\<lambda>i. one_hot_row 10 (astype_int (target mnist ! i))) idx
           \<and> csr_todense Y_test = map (\<lambda>t. one_hot_row 10 (astype_int t)) (drop 60000 (target mnist))
           \<and> length idx = min (length (data mnist)) 60000
           \<and> length idx + length (drop 60000 (data mnist)) = length (data mnist)"
proof -
  have idx: "\<forall>i \<in> set idx. i < min (length (data mnist)) 60000"
    using assms(6) by simp
  have "length idx = card (set idx)"
    using assms(5) by (simp add: distinct_card)
  then have n: "length idx = min (length (data mnist)) 60000"
    using assms(6) by simp
  then have "length idx + length (drop 60000 (data mnist)) = length (data mnist)"
    by (simp add: min_def)
  with fetch_mnist_result [OF assms(1-4) idx, of g] n show ?thesis by blast
qed

lemma toy_mnist_rows: "\<forall>r \<in> set (data toy_mnist). length r = 28 * 28"
  by (simp add: toy_mnist_def)

lemma toy_mnist_len: "length (target toy_mnist) = length (data toy_mnist)"
  by (simp add: toy_mnist_def)

lemma toy_mnist_labels: "\<forall>t \<in> set (target toy_mnist). 0 \<le> astype_int t \<and> astype_int t < 10"
  by (simp add: toy_mnist_def astype_int_def)

lemma toy_mnist_perm:
  "np_permutation toy_numpy (np_seed toy_numpy 0) (min (length (data toy_mnist)) 60000)
     = (rev [0..<60000], 1)"
  by (simp add: toy_mnist_def toy_numpy_def)

lemma toy_mnist_idx: "set (rev [0..<60000]) = {0..<min (length (data toy_mnist)) 60000}"
  by (simp add: toy_mnist_def)

theorem fetch_mnist_partition_witness:
  "\<exists>Y_train Y_test.
     fetch_mnist toy_numpy toy_mnist 5 =
       Inr (map (\<lambda>i. sample_image toy_numpy (data toy_mnist ! i)) (rev [0..<60000]), Y_train,
            [sample_image toy_numpy (replicate 784 255)], Y_test)
     \<and> csr_todense Y_train = map (\<lambda>i. one_hot_row 10 (astype_int (target toy_mnist ! i))) (rev [0..<60000])
     \<and> csr_todense Y_test = [one_hot_row 10 7]"
proof -
  have d: "distinct (rev [0..<60000])" by simp
  from fetch_mnist_partition [OF toy_mnist_rows toy_mnist_len toy_mnist_labels toy_mnist_perm d
      toy_mnist_idx, of 5]
  obtain Y_train Y_test where
    f: "fetch_mnist toy_numpy toy_mnist 5 =
             Inr (map (\<lambda>i. sample_image toy_numpy (data toy_mnist ! i)) (rev [0..<60000]), Y_train,
                  map (sample_image toy_numpy) (drop 60000 (data toy_mnist)), Y_test)"
    and tr: "csr_todense Y_train =
               map (\<lambda>i. one_hot_row 10 (astype_int (target toy_mnist ! i))) (rev [0..<60000])"
    and te: "csr_todense Y_test =
               map (\<lambda>t. one_hot_row 10 (astype_int t)) (drop 60000 (target toy_mnist))"
    by blast
  have "drop 60000 (data toy_mnist) = [replicate 784 255]"
    and "drop 60000 (target toy_mnist) = [7]"
    by (simp_all add: toy_mnist_def)
  with f tr te show ?thesis by (simp add: astype_int_def)
qed

text \<open>
  C4. Every label vector the data generators produce is a one-hot encoding: whenever
  \<open>generate_synthetic_data\<close> returns, and whenever \<open>fetch_mnist\<close> returns, every row of
  every label matrix in the result has exactly one entry equal to 1, all other entries
  equal to 0, and the entries of the row sum to 1.
\<close>

theorem label_vectors_one_hot:
  "(generate_synthetic_data np N g = Inr ((X, Y), g')
      \<longrightarrow> (\<forall>v \<in> set (csr_todense Y). one_hot v \<and> sum_list v = 1))
   \<and> (fetch_mnist np mnist h = Inr (X_train, Y_train, X_test, Y_test)
      \<longrightarrow> (\<forall>v \<in> set (csr_todense Y_train) \<union> set (csr_todense Y_test). one_hot v \<and> sum_list v = 1))"
proof (intro conjI impI ballI)
  fix v
  assume gen: "generate_synthetic_data np N g = Inr ((X, Y), g')" and v: "v \<in> set (csr_todense Y)"
  from gen obtain labels where
    "csr_matrix (replicate (nat N) 1) (map int [0..<nat N]) labels (nat N, num_classes) = Inr Y"
    by (auto simp: generate_synthetic_data_def Let_def split: if_splits prod.splits sum.splits)
  from csr_todense_rows_one_hot [OF this v] show "one_hot v" and "sum_list v = 1" .
next
  fix v
  assume f: "fetch_mnist np mnist h = Inr (X_train, Y_train, X_test, Y_test)"
    and v: "v \<in> set (csr_todense Y_train) \<union> set (csr_todense Y_test)"
  from fetch_mnist_labels [OF f] obtain Y1 Y2 where
    Y1: "csr_matrix (replicate (length Y1) 1) (map int [0..<length Y1]) Y1 (length Y1, 10) = Inr Y_train"
    and Y2: "csr_matrix (replicate (length Y2) 1) (map int [0..<length Y2]) Y2 (length Y2, 10) = Inr Y_test"
    by (auto simp: one_hot_labels_def)
  from v csr_todense_rows_one_hot [OF Y1] csr_todense_rows_one_hot [OF Y2]
  show "one_hot v" and "sum_list v = 1" by blast+
qed

lemma one_hot_row_10_7: "one_hot_row 10 7 = [0, 0, 0, 0, 0, 0, 0, 1, 0, 0]"
  by (simp add: one_hot_row_def numeral_eq_Suc)

lemma one_hot_row_2: "one_hot_row 2 0 = [1, 0]" "one_hot_row 2 1 = [0, 1]"
  by (simp_all add: one_hot_row_def numeral_2_eq_2)

theorem label_vectors_one_hot_witness:
  "\<exists>X Y X_train Y_train X_test Y_test.
     generate_synthetic_data toy_numpy 3 0 = Inr ((X, Y), 9)
     \<and> fetch_mnist toy_numpy toy_mnist 5 = Inr (X_train, Y_train, X_test, Y_test)
     \<and> csr_todense Y = [[1, 0], [0, 1], [1, 0]]
     \<and> csr_todense Y_test = [[0, 0, 0, 0, 0, 0, 0, 1, 0, 0]]
     \<and> list_all (\<lambda>v. one_hot v \<and> sum_list v = 1) (csr_todense Y)
     \<and> list_all (\<lambda>v. one_hot v \<and> sum_list v = 1) (csr_todense Y_train)
     \<and> list_all (\<lambda>v. one_hot v \<and> sum_list v = 1) (csr_todense Y_test)"
proof -
  have h3: "randint toy_numpy (nat 3) 0 (int num_classes) 0 = ([0, 1, 0], 3)"
    using toy_randint_3 by (simp add: num_classes_def)
  have h4: "randn toy_numpy (nat 3) input_dim 3 = ([[3, 4], [5, 6], [7, 8]], 9)"
    using toy_randn_3 by (simp add: input_dim_def)
  from generate_synthetic_data_result [OF _ toy_draw_int_range h3 h4]
  obtain X Y where
    gen: "generate_synthetic_data toy_numpy 3 0 = Inr ((X, Y), 9)" and
    Y: "csr_matrix (replicate (nat 3) 1) (map int [0..<nat 3]) [0, 1, 0] (nat 3, num_classes) = Inr Y"
    by auto
  have dY: "csr_todense Y = [[1, 0], [0, 1], [1, 0]]"
    using csr_todense_one_hot [OF Y] by (simp add: num_classes_def one_hot_row_2)
  have idx: "\<forall>i \<in> set (rev [0..<60000]). i < min (length (data toy_mnist)) 60000"
    by (simp add: toy_mnist_def)
  from fetch_mnist_result [OF toy_mnist_rows toy_mnist_len toy_mnist_labels toy_mnist_perm idx, of 5]
  obtain X_train Y_train X_test Y_test where
    f: "fetch_mnist toy_numpy toy_mnist 5 = Inr (X_train, Y_train, X_test, Y_test)" and
    te: "csr_todense Y_test = map (\<lambda>t. one_hot_row 10 (astype_int t)) (drop 60000 (target toy_mnist))"
    by blast
  have "drop 60000 (target toy_mnist) = [7]" by (simp add: toy_mnist_def)
  then have dte: "csr_todense Y_test = [[0, 0, 0, 0, 0, 0, 0, 1, 0, 0]]"
    unfolding te by (simp add: astype_int_def one_hot_row_10_7)
  from label_vectors_one_hot [of toy_numpy 3 0 X Y 9 toy_mnist 5 X_train Y_train X_test Y_test] gen f
  have "\<forall>v \<in> set (csr_todense Y). one_hot v \<and> sum_list v = 1"
    and "\<forall>v \<in> set (csr_todense Y_train) \<union> set (csr_todense Y_test). one_hot v \<and> sum_list v = 1"
    by blast+
  then have "list_all (\<lambda>v. one_hot v \<and> sum_list v = 1) (csr_todense Y)"
    and "list_all (\<lambda>v. one_hot v \<and> sum_list v = 1) (csr_todense Y_train)"
    and "list_all (\<lambda>v. one_hot v \<and> sum_list v = 1) (csr_todense Y_test)"
    unfolding list_all_iff by blast+
  with gen f dY dte show ?thesis by blast
qed

section \<open>Model outputs, softmax and argmax\<close>

lemma batch_total:
  assumes "\<forall>x \<in> set X. f x = Inr (g x)"
  shows "batch f X = Inr (map g X)"
  using assms by (induction X) simp_all

lemma batch_Inr:
  assumes "batch f X = Inr S"
  shows "length S = length X \<and> (\<forall>i < length X. f (X ! i) = Inr (S ! i))"
  using assms
proof (induction X arbitrary: S)
  case Nil
  then show ?case by simp
next
  case (Cons x X)
  from Cons.prems obtain y ys where
    y: "f x = Inr y" and ys: "batch f X = Inr ys" and S: "S = y # ys"
    by (auto split: sum.splits)
  from Cons.IH [OF ys] have "length ys = length X"
    and "\<forall>i < length X. f (X ! i) = Inr (ys ! i)" by simp_all
  then show ?case using y S by (auto simp: nth_Cons split: nat.splits)
qed

lemma batch_rows:
  assumes "batch f X = Inr S" and "s \<in> set S"
  shows "\<exists>x \<in> set X. f x = Inr s"
proof -
  from batch_Inr [OF assms(1)] have l: "length S = length X"
    and r: "\<forall>i < length X. f (X ! i) = Inr (S ! i)" by simp_all
  from assms(2) obtain i where "i < length S" and "s = S ! i"
    by (auto simp: in_set_conv_nth)
  then show ?thesis using l r by (metis nth_mem)
qed

lemma length_linear: "length (linear n Wt bt x) = n"
  by (simp add: linear_def)

lemma model_total:
  assumes "\<forall>x \<in> set X. length x = input_dim"
  shows "model p X = Inr (map (linear num_classes (param_W p) (param_b p)) X)"
  unfolding model_def using assms by (intro batch_total) simp

lemma sum_exp_pos: "z \<noteq> [] \<Longrightarrow> 0 < sum_list (map exp z)" for z :: "real list"
proof (induction z)
  case Nil
  then show ?case by simp
next
  case (Cons x z)
  have "0 \<le> sum_list (map exp z)" by (rule sum_list_nonneg) auto
  moreover have "0 < exp x" by simp
  ultimately have "0 < exp x + sum_list (map exp z)" by (rule add_pos_nonneg [rotated])
  then show ?case by simp
qed

lemma sum_list_divide: "sum_list (map (\<lambda>x. f x / c) xs) = sum_list (map f xs) / c"
  for c :: real
  by (induction xs) (simp_all add: add_divide_distrib)

lemma member_le_sum_list_real:
  fixes x :: real
  assumes "\<forall>y \<in> set ys. 0 \<le> y" and "x \<in> set ys"
  shows "x \<le> sum_list ys"
  using assms
proof (induction ys)
  case Nil
  then show ?case by simp
next
  case (Cons y ys)
  have nn: "0 \<le> sum_list ys" using Cons.prems(1) by (intro sum_list_nonneg) simp
  show ?case
  proof (cases "x = y")
    case True
    then show ?thesis using nn by simp
  next
    case False
    then have "x \<le> sum_list ys" using Cons by simp
    moreover have "0 \<le> y" using Cons.prems(1) by simp
    ultimately show ?thesis by simp
  qed
qed

lemma softmax_distribution:
  assumes "z \<noteq> []"
  shows "length (softmax z) = length z" and "\<forall>v \<in> set (softmax z). 0 \<le> v \<and> v \<le> 1"
    and "sum_list (softmax z) = 1"
proof -
  have pos: "0 < sum_list (map exp z)" by (rule sum_exp_pos [OF assms])
  show "length (softmax z) = length z" by (simp add: softmax_def)
  show "\<forall>v \<in> set (softmax z). 0 \<le> v \<and> v \<le> 1"
  proof
    fix v assume "v \<in> set (softmax z)"
    then obtain x where x: "x \<in> set z" and v: "v = exp x / sum_list (map exp z)"
      by (auto simp: softmax_def)
    have "exp x \<le> sum_list (map exp z)"
      using x by (intro member_le_sum_list_real) auto
    then show "0 \<le> v \<and> v \<le> 1" using pos v by simp
  qed
  have "sum_list (softmax z) = sum_list (map exp z) / sum_list (map exp z)"
    unfolding softmax_def by (rule sum_list_divide)
  then show "sum_list (softmax z) = 1" using pos by simp
qed

lemma argmax_less: "xs \<noteq> [] \<Longrightarrow> argmax xs < length xs"
  by (induction xs rule: argmax.induct) simp_all

lemma argmax_map:
  assumes "\<And>x y. f x \<le> f y \<longleftrightarrow> x \<le> y"
  shows "argmax (map f xs) = argmax xs"
proof (induction xs rule: argmax.induct)
  case 1
  show ?case by simp
next
  case (2 x)
  show ?case by simp
next
  case (3 x y ys)
  have "argmax (y # ys) < length (y # ys)" by (rule argmax_less) simp
  then have "map f (y # ys) ! argmax (y # ys) = f ((y # ys) ! argmax (y # ys))"
    by (rule nth_map)
  then have "(map f (y # ys) ! argmax (map f (y # ys)) \<le> f x)
               \<longleftrightarrow> ((y # ys) ! argmax (y # ys) \<le> x)"
    using 3 assms by simp
  then show ?case using 3 by simp
qed

lemma argmax_softmax: "argmax (softmax z) = argmax z"
proof (cases "z = []")
  case True
  then show ?thesis by (simp add: softmax_def)
next
  case False
  have pos: "0 < sum_list (map exp z)" by (rule sum_exp_pos [OF False])
  have "exp x / sum_list (map exp z) \<le> exp y / sum_list (map exp z) \<longleftrightarrow> x \<le> y" for x y :: real
    using pos by (simp add: divide_le_cancel)
  then show ?thesis unfolding softmax_def by (rule argmax_map)
qed

lemma model_mnist_rows:
  assumes "model_mnist L X = Inr S"
  shows "length S = length X" and "\<forall>s \<in> set S. length s = num_classes_mnist"
proof -
  show "length S = length X"
    using batch_Inr [OF assms [unfolded model_mnist_def]] by simp
  show "\<forall>s \<in> set S. length s = num_classes_mnist"
  proof
    fix s assume "s \<in> set S"
    from batch_rows [OF assms [unfolded model_mnist_def] this]
    obtain x where "Sequential [conv1 L, pool1 L, conv2 L, pool2 L, conv3 L,
                        Dense 96 (dense1_W L) (dense1_b L) relu,
                        dropout L,
                        Dense num_classes_mnist (dense2_W L) (dense2_b L) (\<lambda>v. v)] x = Inr s"
      by blast
    then show "length s = num_classes_mnist"
      by (auto simp: Dense_def length_linear split: sum.splits)
  qed
qed

lemma model_rows:
  assumes "\<forall>x \<in> set X. length x = input_dim"
  shows "\<exists>S. model p X = Inr S \<and> length S = length X \<and> (\<forall>s \<in> set S. length s = num_classes)"
  using model_total [OF assms, of p] by (auto simp: length_linear)

lemma get_probability_rows:
  assumes "get_probability p X = Inr P"
  shows "\<exists>S. model p X = Inr S \<and> P = map softmax S
            \<and> length S = length X \<and> (\<forall>s \<in> set S. length s = num_classes)"
proof -
  from assms obtain S where S: "model p X = Inr S" and P: "P = map softmax S"
    by (auto simp: get_probability_def split: sum.splits)
  have l: "length S = length X" using batch_Inr [OF S [unfolded model_def]] by simp
  have "\<forall>s \<in> set S. length s = num_classes"
  proof
    fix s assume "s \<in> set S"
    from batch_rows [OF S [unfolded model_def] this] show "length s = num_classes"
      by (auto simp: length_linear split: if_splits)
  qed
  with S P l show ?thesis by blast
qed

lemma get_probability_mnist_rows:
  assumes "get_probability_mnist L X = Inr P"
  shows "\<exists>S. model_mnist L X = Inr S \<and> P = map softmax S
            \<and> length S = length X \<and> (\<forall>s \<in> set S. length s = num_classes_mnist)"
proof -
  from assms obtain S where S: "model_mnist L X = Inr S" and P: "P = map softmax S"
    by (auto simp: get_probability_mnist_def split: sum.splits)
  with model_mnist_rows [OF S] show ?thesis by blast
qed

lemma softmax_rows:
  assumes "\<forall>s \<in> set S. length s = n" and "0 < n" and "q \<in> set (map softmax S)"
  shows "length q = n \<and> (\<forall>v \<in> set q. 0 \<le> v \<and> v \<le> 1) \<and> sum_list q = 1"
proof -
  from assms(3) obtain s where s: "s \<in> set S" and q: "q = softmax s" by auto
  then have "s \<noteq> []" using assms(1,2) by auto
  from softmax_distribution [OF this] s assms(1) show ?thesis unfolding q by simp
qed

lemma predicted_softmax: "predicted (map softmax S) = map argmax S"
proof -
  have "predicted (map softmax S) = map argmax (map softmax S)"
    unfolding predicted_def by (rule nth_equalityI) simp_all
  then show ?thesis by (simp add: argmax_softmax)
qed

lemma linear_zero_weights:
  assumes "length bt = n" and "\<forall>i < length x. \<forall>j < n. Wt ! i ! j = 0"
  shows "linear n Wt bt x = bt"
proof (rule nth_equalityI)
  show "length (linear n Wt bt x) = length bt" using assms(1) by (simp add: length_linear)
next
  fix j assume "j < length (linear n Wt bt x)"
  then have j: "j < n" by (simp add: length_linear)
  have "map (\<lambda>i. x ! i * Wt ! i ! j) [0..<length x] = map (\<lambda>i. 0) [0..<length x]"
    using assms(2) j by (intro map_cong) simp_all
  then have "sum_list (map (\<lambda>i. x ! i * Wt ! i ! j) [0..<length x]) = 0"
    by (simp add: sum_list_replicate map_replicate_const)
  then show "linear n Wt bt x ! j = bt ! j" using j by (simp add: linear_def)
qed

lemma toy_model: "model toy_parameters [[1, 2], [3, 4]] = Inr [[1, 5], [3, 9]]"
  by (simp add: model_def input_dim_def num_classes_def linear_def toy_parameters_def upt_rec)

lemma toy_model_mnist: "model_mnist toy_layers [[]] = Inr [[0, 1, 2, 3, 4, 5, 6, 7, 8, 9]]"
proof -
  have "linear num_classes_mnist (dense2_W toy_layers) (dense2_b toy_layers)
          (map relu (linear 96 (dense1_W toy_layers) (dense1_b toy_layers) []))
        = dense2_b toy_layers"
    by (rule linear_zero_weights)
       (simp_all add: toy_layers_def num_classes_mnist_def length_linear)
  then show ?thesis
    by (simp add: model_mnist_def Dense_def toy_layers_def)
qed

text \<open>
  C7. The model functions return one score vector per sample, with one score per
  class: on a batch whose samples have \<open>input_dim\<close> entries the logistic-regression
  model \<open>times(data, W) + b\<close> returns a matrix of shape (batch size, 2), and whenever the
  MNIST network returns, its result has shape (batch size, 10), the width of its final
  \<open>Dense(num_classes)\<close> layer.
\<close>

theorem model_output_shape:
  "((\<forall>x \<in> set X. length x = input_dim)
      \<longrightarrow> (\<exists>S. model p X = Inr S \<and> length S = length X \<and> (\<forall>s \<in> set S. length s = 2)))
   \<and> (model_mnist L X' = Inr S'
      \<longrightarrow> length S' = length X' \<and> (\<forall>s \<in> set S'. length s = 10))"
proof (intro conjI impI)
  assume "\<forall>x \<in> set X. length x = input_dim"
  from model_rows [OF this, of p]
  show "\<exists>S. model p X = Inr S \<and> length S = length X \<and> (\<forall>s \<in> set S. length s = 2)"
    by (simp add: num_classes_def)
next
  assume S': "model_mnist L X' = Inr S'"
  show "length S' = length X'" by (rule model_mnist_rows(1) [OF S'])
  show "\<forall>s \<in> set S'. length s = 10"
    using model_mnist_rows(2) [OF S'] by (simp add: num_classes_mnist_def)
qed

theorem model_output_shape_witness:
  "model toy_parameters [[1, 2], [3, 4]] = Inr [[1, 5], [3, 9]]
   \<and> model_mnist toy_layers [[]] = Inr [[0, 1, 2, 3, 4, 5, 6, 7, 8, 9]]
   \<and> (\<exists>S. model toy_parameters [[1, 2], [3, 4]] = Inr S \<and> length S = 2
          \<and> list_all (\<lambda>s. length s = 2) S)
   \<and> length [[0, 1, 2, 3, 4, 5, 6, 7, 8, 9 :: real]] = length [[] :: real list]
   \<and> list_all (\<lambda>s. length s = 10) [[0, 1, 2, 3, 4, 5, 6, 7, 8, 9 :: real]]"
proof -
  have h: "\<forall>x \<in> set [[1, 2], [3, 4 :: real]]. length x = input_dim"
    by (simp add: input_dim_def)
  from model_output_shape [of "[[1, 2], [3, 4]]" toy_parameters toy_layers "[[]]"
      "[[0, 1, 2, 3, 4, 5, 6, 7, 8, 9]]"] h toy_model_mnist
  have a: "\<exists>S. model toy_parameters [[1, 2], [3, 4]] = Inr S
             \<and> length S = length [[1, 2], [3, 4 :: real]] \<and> (\<forall>s \<in> set S. length s = 2)"
    and b: "length [[0, 1, 2, 3, 4, 5, 6, 7, 8, 9 :: real]] = length [[] :: real list]"
    and c: "\<forall>s \<in> set [[0, 1, 2, 3, 4, 5, 6, 7, 8, 9 :: real]]. length s = 10"
    by blast+
  from a obtain S where S: "model toy_parameters [[1, 2], [3, 4]] = Inr S"
    "length S = length [[1, 2], [3, 4 :: real]]" "\<forall>s \<in> set S. length s = 2"
    by blast
  from S(2) have "length S = 2" by simp
  moreover from S(3) have "list_all (\<lambda>s. length s = 2) S" unfolding list_all_iff .
  ultimately have "\<exists>S. model toy_parameters [[1, 2], [3, 4]] = Inr S \<and> length S = 2
          \<and> list_all (\<lambda>s. length s = 2) S"
    using S(1) by blast
  moreover from c have "list_all (\<lambda>s. length s = 10) [[0, 1, 2, 3, 4, 5, 6, 7, 8, 9 :: real]]"
    unfolding list_all_iff .
  ultimately show ?thesis using toy_model toy_model_mnist b by blast
qed

text \<open>
  C6. \<open>get_probability\<close> returns a probability distribution per sample: on a batch
  whose samples have \<open>input_dim\<close> entries the logistic-regression script's
  \<open>softmax(model)\<close> returns one row per sample, each with an entry in \<open>[0,1]\<close> per class
  and entries that sum to 1; the same holds of every row the MNIST script's
  \<open>get_probability\<close> returns. Both are functions of the parameters and the batch alone.
\<close>

theorem get_probability_distribution:
  "((\<forall>x \<in> set X. length x = input_dim)
      \<longrightarrow> (\<exists>P. get_probability p X = Inr P \<and> length P = length X
             \<and> (\<forall>q \<in> set P. length q = num_classes
                   \<and> (\<forall>v \<in> set q. 0 \<le> v \<and> v \<le> 1) \<and> sum_list q = 1)))
   \<and> (get_probability_mnist L X' = Inr P'
      \<longrightarrow> length P' = length X'
          \<and> (\<forall>q \<in> set P'. length q = num_classes_mnist
                \<and> (\<forall>v \<in> set q. 0 \<le> v \<and> v \<le> 1) \<and> sum_list q = 1))"
proof (intro conjI impI)
  assume "\<forall>x \<in> set X. length x = input_dim"
  from model_rows [OF this, of p] obtain S where
    S: "model p X = Inr S" "length S = length X" "\<forall>s \<in> set S. length s = num_classes"
    by blast
  have "get_probability p X = Inr (map softmax S)" using S(1) by (simp add: get_probability_def)
  moreover have "\<forall>q \<in> set (map softmax S). length q = num_classes
                   \<and> (\<forall>v \<in> set q. 0 \<le> v \<and> v \<le> 1) \<and> sum_list q = 1"
    using softmax_rows [OF S(3)] by (simp add: num_classes_def)
  ultimately show "\<exists>P. get_probability p X = Inr P \<and> length P = length X
             \<and> (\<forall>q \<in> set P. length q = num_classes
                   \<and> (\<forall>v \<in> set q. 0 \<le> v \<and> v \<le> 1) \<and> sum_list q = 1)"
    using S(2) by simp
next
  assume "get_probability_mnist L X' = Inr P'"
  from get_probability_mnist_rows [OF this] obtain S where
    S: "P' = map softmax S" "length S = length X'" "\<forall>s \<in> set S. length s = num_classes_mnist"
    by blast
  show "length P' = length X'" using S(1,2) by simp
  show "\<forall>q \<in> set P'. length q = num_classes_mnist
                \<and> (\<forall>v \<in> set q. 0 \<le> v \<and> v \<le> 1) \<and> sum_list q = 1"
    unfolding S(1) using softmax_rows [OF S(3)] by (simp add: num_classes_mnist_def)
qed

theorem get_probability_distribution_witness:
  "get_probability_mnist toy_layers [[]] = Inr [softmax [0, 1, 2, 3, 4, 5, 6, 7, 8, 9]]
   \<and> sum_list (softmax [0, 1, 2, 3, 4, 5, 6, 7, 8, 9]) = 1
   \<and> (\<exists>P. get_probability toy_parameters [[1, 2], [3, 4]] = Inr P \<and> length P = 2
          \<and> list_all (\<lambda>q. length q = 2 \<and> list_all (\<lambda>v. 0 \<le> v \<and> v \<le> 1) q \<and> sum_list q = 1) P)"
proof -
  have h: "\<forall>x \<in> set [[1, 2], [3, 4 :: real]]. length x = input_dim"
    by (simp add: input_dim_def)
  have m: "get_probability_mnist toy_layers [[]] = Inr [softmax [0, 1, 2, 3, 4, 5, 6, 7, 8, 9]]"
    using toy_model_mnist by (simp add: get_probability_mnist_def)
  from get_probability_distribution [of "[[1, 2], [3, 4]]" toy_parameters toy_layers "[[]]"
      "[softmax [0, 1, 2, 3, 4, 5, 6, 7, 8, 9]]"] h m
  have a: "\<exists>P. get_probability toy_parameters [[1, 2], [3, 4]] = Inr P
             \<and> length P = length [[1, 2], [3, 4 :: real]]
             \<and> (\<forall>q \<in> set P. length q = num_classes
                   \<and> (\<forall>v \<in> set q. 0 \<le> v \<and> v \<le> 1) \<and> sum_list q = 1)"
    and b: "\<forall>q \<in> set [softmax [0, 1, 2, 3, 4, 5, 6, 7, 8, 9]]. length q = num_classes_mnist
                \<and> (\<forall>v \<in> set q. 0 \<le> v \<and> v \<le> 1) \<and> sum_list q = 1"
    by blast+
  from a obtain P where P: "get_probability toy_parameters [[1, 2], [3, 4]] = Inr P"
    "length P = length [[1, 2], [3, 4 :: real]]"
    "\<forall>q \<in> set P. length q = num_classes
                   \<and> (\<forall>v \<in> set q. 0 \<le> v \<and> v \<le> 1) \<and> sum_list q = 1"
    by blast
  from P(2) have "length P = 2" by simp
  moreover from P(3)
  have "list_all (\<lambda>q. length q = 2 \<and> list_all (\<lambda>v. 0 \<le> v \<and> v \<le> 1) q \<and> sum_list q = 1) P"
    unfolding list_all_iff num_classes_def .
  ultimately have "\<exists>P. get_probability toy_parameters [[1, 2], [3, 4]] = Inr P \<and> length P = 2
          \<and> list_all (\<lambda>q. length q = 2 \<and> list_all (\<lambda>v. 0 \<le> v \<and> v \<le> 1) q \<and> sum_list q = 1) P"
    using P(1) by blast
  moreover from b have "sum_list (softmax [0, 1, 2, 3, 4, 5, 6, 7, 8, 9]) = 1" by simp
  ultimately show ?thesis using m by blast
qed

text \<open>
  C9. Softmax does not change the position of the first greatest score:
  \<open>argmax (softmax z) = argmax z\<close> for every score vector \<open>z\<close> (so in particular for one
  with a unique maximum), and therefore the class indices printed from the output of
  \<open>get_probability\<close> are the indices of the greatest raw model scores, in both scripts.
\<close>

theorem argmax_softmax_is_argmax:
  "argmax (softmax z) = argmax z
   \<and> (get_probability p X = Inr P
        \<longrightarrow> (\<exists>S. model p X = Inr S \<and> predicted P = map argmax S))
   \<and> (get_probability_mnist L X' = Inr P'
        \<longrightarrow> (\<exists>S'. model_mnist L X' = Inr S' \<and> predicted P' = map argmax S'))"
proof (intro conjI impI)
  show "argmax (softmax z) = argmax z" by (rule argmax_softmax)
next
  assume "get_probability p X = Inr P"
  from get_probability_rows [OF this]
  show "\<exists>S. model p X = Inr S \<and> predicted P = map argmax S"
    using predicted_softmax by blast
next
  assume "get_probability_mnist L X' = Inr P'"
  from get_probability_mnist_rows [OF this]
  show "\<exists>S'. model_mnist L X' = Inr S' \<and> predicted P' = map argmax S'"
    using predicted_softmax by blast
qed

theorem argmax_softmax_is_argmax_witness:
  "argmax (softmax [1, 5]) = 1
   \<and> get_probability toy_parameters [[1, 2], [3, 4]] = Inr [softmax [1, 5], softmax [3, 9]]
   \<and> predicted [softmax [1, 5], softmax [3, 9]] = [1, 1]
   \<and> get_probability_mnist toy_layers [[]] = Inr [softmax [0, 1, 2, 3, 4, 5, 6, 7, 8, 9]]
   \<and> predicted [softmax [0, 1, 2, 3, 4, 5, 6, 7, 8, 9]] = [9]"
proof -
  have g: "get_probability toy_parameters [[1, 2], [3, 4]] = Inr [softmax [1, 5], softmax [3, 9]]"
    using toy_model by (simp add: get_probability_def)
  have m: "get_probability_mnist toy_layers [[]] = Inr [softmax [0, 1, 2, 3, 4, 5, 6, 7, 8, 9]]"
    using toy_model_mnist by (simp add: get_probability_mnist_def)
  note t = argmax_softmax_is_argmax [of "[1, 5]" toy_parameters "[[1, 2], [3, 4]]"
      "[softmax [1, 5], softmax [3, 9]]" toy_layers "[[]]" "[softmax [0, 1, 2, 3, 4, 5, 6, 7, 8, 9]]"]
  from t have "argmax (softmax [1, 5]) = argmax [1, 5]" by blast
  then have a: "argmax (softmax [1, 5]) = 1" by simp
  from t g toy_model have "predicted [softmax [1, 5], softmax [3, 9]] = map argmax [[1, 5], [3, 9]]"
    by auto
  then have b: "predicted [softmax [1, 5], softmax [3, 9]] = [1, 1]" by simp
  from t m toy_model_mnist
  have "predicted [softmax [0, 1, 2, 3, 4, 5, 6, 7, 8, 9]] = map argmax [[0, 1, 2, 3, 4, 5, 6, 7, 8, 9]]"
    by auto
  then have c: "predicted [softmax [0, 1, 2, 3, 4, 5, 6, 7, 8, 9]] = [9]" by simp
  from a b c g m show ?thesis by blast
qed

section \<open>The evaluation pass\<close>

lemma test_minibatch_trained:
  assumes "test_minibatch x y st = Inr s'"
  shows "\<exists>s. st = Inr s \<and> trained s' = trained s"
  using assms by (auto simp: test_minibatch_def split: sum.splits if_splits)

lemma test_steps_failed: "test_steps test_minibatch X Y m is (Inl e) = Inl e"
  by (induction "is") (simp_all add: test_minibatch_def)

lemma test_steps_trained:
  assumes "test_steps test_minibatch X Y m is (Inr s) = Inr s'"
  shows "trained s' = trained s"
  using assms
proof (induction "is" arbitrary: s)
  case Nil
  then show ?case by simp
next
  case (Cons i "is")
  show ?case
  proof (cases "test_minibatch (py_slice X i (i + m)) (csr_getrows Y i (i + m)) (Inr s)")
    case (Inl e)
    with Cons.prems show ?thesis by (simp add: test_steps_failed)
  next
    case (Inr s1)
    with Cons.prems have "trained s' = trained s1" by (intro Cons.IH) simp
    moreover from test_minibatch_trained [OF Inr] have "trained s1 = trained s" by simp
    ultimately show ?thesis by simp
  qed
qed

lemma evaluate_trained:
  assumes "evaluate s X Y m = Inr (r, s')"
  shows "trained s' = trained s"
proof -
  from assms obtain "is" where
    "test_steps test_minibatch X Y m is (Inr (Evaluator s)) = Inr s'"
    by (auto simp: evaluate_def test_loop_def split: sum.splits)
  from test_steps_trained [OF this] show ?thesis by (simp add: Evaluator_def)
qed

lemma Evaluator_trained:
  assumes "trained s' = trained s"
  shows "Evaluator s' = Evaluator s"
  using assms by (simp add: Evaluator_def)

text \<open>
  C2. The evaluation pass over the held-out set leaves the model parameters \<open>W\<close> and
  \<open>b\<close> as they were: a call of \<open>test_minibatch\<close> that returns, and a whole pass that
  returns, end in a state with the parameters of the state they started from; and a
  second pass over the same set, run from the state the first pass left, returns the
  same metric value.
\<close>

theorem evaluation_preserves_parameters:
  "(test_minibatch x y (Inr s) = Inr s1 \<longrightarrow> trained s1 = trained s)
   \<and> (evaluate s X Y m = Inr (r, s')
        \<longrightarrow> trained s' = trained s \<and> evaluate s' X Y m = Inr (r, s'))"
proof (intro conjI impI)
  assume "test_minibatch x y (Inr s) = Inr s1"
  from test_minibatch_trained [OF this] show "trained s1 = trained s" by simp
next
  assume e: "evaluate s X Y m = Inr (r, s')"
  show t: "trained s' = trained s" by (rule evaluate_trained [OF e])
  have "evaluate s' X Y m = evaluate s X Y m"
    unfolding evaluate_def Evaluator_trained [OF t] ..
  then show "evaluate s' X Y m = Inr (r, s')" using e by simp
qed


lemma toy_evaluate:
  "evaluate toy_state [[1, 2], [3, 4]] Y2 25
     = Inr (1 / 2, \<lparr>trained = toy_parameters, progress = \<lparr>test_errors = 1, test_samples = 2\<rparr>\<rparr>)"
proof -
  have r: "py_range 0 (int (length [[1, 2], [3, 4 :: real]])) 25 = Inr [0]"
    by (simp add: py_range_def range_length_def)
  have x: "py_slice [[1, 2], [3, 4 :: real]] 0 25 = [[1, 2], [3, 4]]"
    by (simp add: py_slice_def adjust_index_def)
  have y: "csr_getrows Y2 0 25 = Y2"
    by (simp add: csr_getrows_def py_slice_def adjust_index_def Y2_def)
  have d: "csr_row_dense Y2 0 = [0, 1]" "csr_row_dense Y2 (Suc 0) = [1, 0]"
    by (simp_all add: csr_row_dense_def Y2_def upt_rec)
  have c: "classification_errors [[1, 5], [3, 9]] Y2 = 1"
    by (simp add: classification_errors_def d upt_rec)
  have t: "test_minibatch [[1, 2], [3, 4]] Y2 (Inr (Evaluator toy_state))
             = Inr \<lparr>trained = toy_parameters, progress = \<lparr>test_errors = 1, test_samples = 2\<rparr>\<rparr>"
    by (simp add: test_minibatch_def Evaluator_def toy_state_def toy_model c)
       (simp add: nrows_def Y2_def)
  show ?thesis
    unfolding evaluate_def test_loop_def r by (simp add: x y t summarize_test_progress_def)
qed

theorem evaluation_preserves_parameters_witness:
  "evaluate toy_state [[1, 2], [3, 4]] Y2 25
     = Inr (1 / 2, \<lparr>trained = toy_parameters, progress = \<lparr>test_errors = 1, test_samples = 2\<rparr>\<rparr>)
   \<and> trained \<lparr>trained = toy_parameters, progress = \<lparr>test_errors = 1, test_samples = 2\<rparr>\<rparr>
       = trained toy_state
   \<and> evaluate \<lparr>trained = toy_parameters, progress = \<lparr>test_errors = 1, test_samples = 2\<rparr>\<rparr>
         [[1, 2], [3, 4]] Y2 25
     = Inr (1 / 2, \<lparr>trained = toy_parameters, progress = \<lparr>test_errors = 1, test_samples = 2\<rparr>\<rparr>)"
  using evaluation_preserves_parameters [of "[]" Y2 toy_state toy_state "[[1, 2], [3, 4]]" Y2 25
      "1 / 2" "\<lparr>trained = toy_parameters, progress = \<lparr>test_errors = 1, test_samples = 2\<rparr>\<rparr>"]
    toy_evaluate
  by blast

end
